theory Spec2Isabelle
  imports Main "HOL-Library.AList" "HOL-Library.Sublist"
begin

section \<open>Data model (modifier.py, lines 11-36)\<close>

text \<open>
  A usage node is a Python object; the only place that creates one stores it at once in
  the dictionary \<open>usage_nodes\<close> under the key \<open>(package, name)\<close>, and nothing ever removes
  an entry. An object is therefore identified by its key: the dictionary is an association
  list in insertion order (the order in which Python iterates it), and a reference to a
  node (a parent, an element of \<open>children\<close>) is the node's key.
\<close>

type_synonym key = "string \<times> string"

datatype UsageNodeKind = Rpc | Message | Enum | Extend

record UsageNode =
  kind :: UsageNodeKind
  package :: string
  name :: string
  children :: "key list"
  should_render :: bool

type_synonym graph = "(key \<times> UsageNode) list"

text \<open>
  The attributes of \<open>ProtoModifier\<close>. \<open>package_name\<close> is not assigned by \<open>__init__\<close>:
  \<open>None\<close> stands for the attribute that does not exist yet, and reading it then raises
  \<open>AttributeError\<close>.
\<close>

record ProtoModifier =
  usage_nodes :: graph
  include_rpc_with_option_names :: "string list option"
  usage_graph_creation_phase :: bool
  rendered_files :: "string list"
  package_name :: "string option"

definition init :: "string list option \<Rightarrow> ProtoModifier" where
  "init names =
     \<lparr>usage_nodes = [], include_rpc_with_option_names = names,
      usage_graph_creation_phase = False, rendered_files = [], package_name = None\<rparr>"

section \<open>Exceptions and state\<close>

text \<open>
  The exceptions the modelled code can raise. A generator takes the modifier and returns
  its result or the exception, together with the modifier as it is at that moment: what
  was mutated before an exception stays mutated, and the render passes of main.py catch
  the exception and go on with the next file.
\<close>

datatype error = KeyError | AttributeError | IndexError | TypeError | RecursionError

type_synonym 'a gen = "ProtoModifier \<Rightarrow> (error + 'a) \<times> ProtoModifier"

definition ret :: "'a \<Rightarrow> 'a gen" where
  "ret a s = (Inr a, s)"

definition raise :: "error \<Rightarrow> 'a gen" where
  "raise e s = (Inl e, s)"

definition gbind :: "'a gen \<Rightarrow> ('a \<Rightarrow> 'b gen) \<Rightarrow> 'b gen" where
  "gbind m f s = (case m s of (Inl e, s') \<Rightarrow> (Inl e, s') | (Inr a, s') \<Rightarrow> f a s')"

section \<open>Python string operations\<close>

text \<open>\<open>str.split(".")\<close>: never returns the empty list.\<close>

fun split_dot :: "string \<Rightarrow> string list" where
  "split_dot [] = [[]]"
| "split_dot (c # cs) =
     (if c = CHR ''.'' then [] # split_dot cs
      else (case split_dot cs of [] \<Rightarrow> [[c]] | p # ps \<Rightarrow> (c # p) # ps))"

text \<open>\<open>'.'.join(parts)\<close>.\<close>

fun join_dot :: "string list \<Rightarrow> string" where
  "join_dot [] = []"
| "join_dot [p] = p"
| "join_dot (p # ps) = p @ ''.'' @ join_dot ps"

text \<open>
  \<open>str.islower()\<close> and \<open>str.isupper()\<close> on one character. The grammar's identifiers are
  ASCII letters, digits and underscores; on these, the cased characters are the letters.
\<close>

definition islower :: "char \<Rightarrow> bool" where
  "islower c \<longleftrightarrow> 97 \<le> (of_char c :: nat) \<and> (of_char c :: nat) \<le> 122"

definition isupper :: "char \<Rightarrow> bool" where
  "isupper c \<longleftrightarrow> 65 \<le> (of_char c :: nat) \<and> (of_char c :: nat) \<le> 90"

text \<open>The slice \<open>s[1:-1]\<close>.\<close>

definition slice_1_m1 :: "string \<Rightarrow> string" where
  "slice_1_m1 s = butlast (tl s)"

text \<open>\<open>" " * indent * 2\<close>.\<close>

definition spaces :: "nat \<Rightarrow> string" where
  "spaces indent = replicate (indent * 2) CHR '' ''"

section \<open>The usage graph\<close>

definition scalar_types :: "string list" where
  "scalar_types =
     [''bool'', ''string'', ''bytes'', ''float'', ''double'',
      ''int32'', ''int64'', ''uint32'', ''uint64'', ''sint32'',
      ''sint64'', ''fixed32'', ''fixed64'', ''sfixed32'', ''sfixed64'']"

text \<open>\<open>usage_parent.add_child(usage_node)\<close>: append to the parent's list, duplicates kept.\<close>

definition add_child :: "key \<Rightarrow> key \<Rightarrow> graph \<Rightarrow> graph" where
  "add_child parent child g = AList.map_entry parent (\<lambda>n. n\<lparr>children := children n @ [child]\<rparr>) g"

definition set_kind :: "key \<Rightarrow> UsageNodeKind \<Rightarrow> graph \<Rightarrow> graph" where
  "set_kind k knd g = AList.map_entry k (\<lambda>n. n\<lparr>kind := knd\<rparr>) g"

definition set_should_render :: "key \<Rightarrow> bool \<Rightarrow> graph \<Rightarrow> graph" where
  "set_should_render k b g = AList.map_entry k (\<lambda>n. n\<lparr>should_render := b\<rparr>) g"

text \<open>Reading \<open>self.package_name\<close>.\<close>

definition get_package_name :: "string gen" where
  "get_package_name s = (case package_name s of None \<Rightarrow> (Inl AttributeError, s) | Some p \<Rightarrow> (Inr p, s))"

text \<open>
  Lines 1097-1111 of \<open>create_usage_node_from_type_name\<close>: during graph creation, find or
  create the node of \<open>(package_name, message_name)\<close>, set its kind when one is forced, and
  append it to the parent's children; in the other phases, look the node up.
\<close>

definition find_or_create ::
  "string \<Rightarrow> string \<Rightarrow> key option \<Rightarrow> UsageNodeKind option \<Rightarrow> key option gen" where
  "find_or_create package_name' message_name usage_parent knd s =
     (let k = (package_name', message_name) in
      if usage_graph_creation_phase s then
        (let g1 = (case map_of (usage_nodes s) k of
                     Some n \<Rightarrow> (case knd of Some kd \<Rightarrow> set_kind k kd (usage_nodes s)
                                            | None \<Rightarrow> usage_nodes s)
                   | None \<Rightarrow>
                       usage_nodes s @
                         [(k, \<lparr>kind = (case knd of Some kd \<Rightarrow> kd | None \<Rightarrow> Message),
                               package = package_name', name = message_name,
                               children = [], should_render = False\<rparr>)]);
             g2 = (case usage_parent of Some p \<Rightarrow> add_child p k g1 | None \<Rightarrow> g1)
         in (Inr (Some k), s\<lparr>usage_nodes := g2\<rparr>))
      else
        (case map_of (usage_nodes s) k of
           None \<Rightarrow> (Inl KeyError, s)
         | Some n \<Rightarrow> (Inr (Some k), s)))"

text \<open>
  The loop of lines 1089-1091 over \<open>message_name_parts[:-1]\<close>; \<open>self_call\<close> is the
  recursive call of \<open>create_usage_node_from_type_name\<close>.
\<close>

fun resolve_intermediate ::
  "(string \<Rightarrow> key option \<Rightarrow> UsageNodeKind option \<Rightarrow> key option gen) \<Rightarrow>
   string \<Rightarrow> UsageNodeKind option \<Rightarrow> string list \<Rightarrow> key option \<Rightarrow> key option gen" where
  "resolve_intermediate self_call package_name' knd [] usage_parent = ret usage_parent"
| "resolve_intermediate self_call package_name' knd (message_name # rest) usage_parent =
     gbind (self_call (package_name' @ ''.'' @ message_name) usage_parent knd)
       (\<lambda>usage_node. resolve_intermediate self_call package_name' knd rest usage_node)"

text \<open>
  The body of \<open>create_usage_node_from_type_name\<close> (lines 1070-1111), with its recursive
  call as a parameter. \<open>x[0]\<close> on an empty segment and \<open>message_name_parts[-1]\<close> on an
  empty list raise \<open>IndexError\<close>.
\<close>

definition create_usage_node_body ::
  "(string \<Rightarrow> key option \<Rightarrow> UsageNodeKind option \<Rightarrow> key option gen) \<Rightarrow>
   string \<Rightarrow> key option \<Rightarrow> UsageNodeKind option \<Rightarrow> key option gen" where
  "create_usage_node_body self_call type_name usage_parent knd =
     (let parts = split_dot type_name in
      if last parts \<in> set scalar_types then ret None
      else if length parts > 1 then
        (if [] \<in> set parts then raise IndexError
         else
           (let package_name_parts = filter (\<lambda>x. islower (hd x)) parts;
                message_name_parts = filter (\<lambda>x. isupper (hd x)) parts
            in gbind (if length package_name_parts > 0 then ret (join_dot package_name_parts)
                      else get_package_name)
                 (\<lambda>package_name'.
                    gbind (resolve_intermediate self_call package_name' knd
                             (butlast message_name_parts) usage_parent)
                      (\<lambda>usage_parent'.
                         if message_name_parts = [] then raise IndexError
                         else find_or_create package_name' (last message_name_parts)
                                usage_parent' knd))))
      else
        gbind get_package_name
          (\<lambda>package_name'. find_or_create package_name' type_name usage_parent knd))"

text \<open>
  The recursion of line 1090 does not end on every input (with \<open>package Foo;\<close> active, the
  reference \<open>A.B\<close> calls itself on \<open>Foo.Foo\<close> for ever); Python stops it with
  \<open>RecursionError\<close> when the interpreter's recursion limit is reached. \<open>depth\<close> is the
  number of nested calls still allowed.
\<close>

primrec create_usage_node_depth ::
  "nat \<Rightarrow> string \<Rightarrow> key option \<Rightarrow> UsageNodeKind option \<Rightarrow> key option gen" where
  "create_usage_node_depth 0 = create_usage_node_body (\<lambda>t p k. raise RecursionError)"
| "create_usage_node_depth (Suc d) = create_usage_node_body (create_usage_node_depth d)"

text \<open>The interpreter's default recursion limit.\<close>

definition recursion_limit :: nat where
  "recursion_limit = 1000"

definition create_usage_node_from_type_name ::
  "string \<Rightarrow> key option \<Rightarrow> UsageNodeKind option \<Rightarrow> key option gen" where
  "create_usage_node_from_type_name = create_usage_node_depth recursion_limit"

text \<open>\<open>determine_node_state\<close> (line 1127): the argument may be \<open>None\<close>.\<close>

definition determine_node_state :: "key option \<Rightarrow> bool gen" where
  "determine_node_state usage_node s =
     (case usage_node of
        None \<Rightarrow> (Inl AttributeError, s)
      | Some k \<Rightarrow>
          (case map_of (usage_nodes s) k of
             None \<Rightarrow> (Inl KeyError, s)
           | Some n \<Rightarrow> (Inr (should_render n), s)))"

section \<open>Propagation (lines 1113-1125)\<close>

text \<open>
  \<open>update_should_render_state_each\<close> is the loop over the children of a node; its
  recursive call on a child is the same loop over that child's children. A child is an
  object of the graph in the source, so a key that names no node has no counterpart there;
  the loop passes over it.
\<close>

definition dead_count :: "graph \<Rightarrow> nat" where
  "dead_count g = length (filter (\<lambda>kn. \<not> should_render (snd kn)) g)"

function update_should_render_state_each :: "graph \<Rightarrow> key list \<Rightarrow> graph" where
  "update_should_render_state_each g [] = g"
| "update_should_render_state_each g (c # cs) =
     (case map_of g c of
        None \<Rightarrow> update_should_render_state_each g cs
      | Some n \<Rightarrow>
          if \<not> should_render n
          then update_should_render_state_each
                 (update_should_render_state_each (set_should_render c True g) (children n)) cs
          else update_should_render_state_each g cs)"
  by pat_completeness auto

lemma dead_count_set_le: "dead_count (set_should_render c True g) \<le> dead_count g"
  unfolding dead_count_def set_should_render_def
  by (induction g) auto

lemma dead_count_set_less:
  "map_of g c = Some n \<Longrightarrow> \<not> should_render n \<Longrightarrow>
   dead_count (set_should_render c True g) < dead_count g"
  unfolding dead_count_def set_should_render_def
proof (induction g)
  case Nil
  then show ?case by simp
next
  case (Cons a g)
  then show ?case
    by (cases a) (auto simp: less_Suc_eq_le split: if_splits)
qed

lemma each_dom_dead_le:
  "update_should_render_state_each_dom (g, cs) \<Longrightarrow>
   dead_count (update_should_render_state_each g cs) \<le> dead_count g"
proof (induction g cs rule: update_should_render_state_each.pinduct)
  case (1 g)
  then show ?case by (simp add: update_should_render_state_each.psimps)
next
  case (2 g c cs)
  show ?case
  proof (cases "map_of g c")
    case None
    with 2 show ?thesis by (simp add: update_should_render_state_each.psimps)
  next
    case (Some n)
    show ?thesis
    proof (cases "should_render n")
      case True
      with 2 Some show ?thesis by (simp add: update_should_render_state_each.psimps)
    next
      case False
      from 2 Some False have inner:
        "dead_count (update_should_render_state_each (set_should_render c True g) (children n))
           \<le> dead_count (set_should_render c True g)" by simp
      from 2 Some False have outer:
        "dead_count (update_should_render_state_each
             (update_should_render_state_each (set_should_render c True g) (children n)) cs)
           \<le> dead_count (update_should_render_state_each (set_should_render c True g) (children n))"
        by simp
      from inner outer dead_count_set_le[of c g] 2(1) Some False show ?thesis
        by (simp add: update_should_render_state_each.psimps)
    qed
  qed
qed

termination update_should_render_state_each
proof (relation "measures [\<lambda>(g, cs). dead_count g, \<lambda>(g, cs). length cs]", goal_cases)
  case 1
  then show ?case by simp
next
  case (2 g c cs)
  then show ?case by simp
next
  case (3 g c cs n)
  then show ?case using dead_count_set_less by simp
next
  case (4 g c cs n)
  then show ?case
    using each_dom_dead_le[of "set_should_render c True g" "children n"]
      dead_count_set_less[of g c n] by simp
next
  case (5 g c cs n)
  then show ?case by simp
qed

text \<open>
  \<open>update_should_render_state\<close>: the loop over \<open>self.usage_nodes.values()\<close>, in the
  dictionary's order; each node is read when its turn comes.
\<close>

fun update_should_render_state_loop :: "graph \<Rightarrow> key list \<Rightarrow> graph" where
  "update_should_render_state_loop g [] = g"
| "update_should_render_state_loop g (k # ks) =
     (case map_of g k of
        None \<Rightarrow> update_should_render_state_loop g ks
      | Some n \<Rightarrow>
          (let g1 = (if kind n = Rpc \<and> should_render n
                     then update_should_render_state_each g (children n) else g);
               g2 = (if package n = ''google.protobuf''
                     then update_should_render_state_each (set_should_render k True g1) (children n)
                     else g1)
           in update_should_render_state_loop g2 ks))"

definition update_should_render_state :: "ProtoModifier \<Rightarrow> ProtoModifier" where
  "update_should_render_state s =
     s\<lparr>usage_nodes := update_should_render_state_loop (usage_nodes s) (map fst (usage_nodes s))\<rparr>"

section \<open>The syntax tree\<close>

text \<open>
  The parser's context classes are generated code outside this repository's sources; the
  tree is modelled by one datatype per grammar rule the generators visit, with the
  alternatives and children the generators ask for. Keyword and punctuation tokens have
  their fixed text. A subtree that is only turned into text by generators that neither
  read nor write the modifier (names, numbers, literals, option values, compact options,
  reserved and extension ranges, enum values) is carried as the text those generators
  return for it at its place in the tree.
\<close>

datatype OptionDecl = OptionDecl (optionName: string) (optionValue: string)

datatype ImportDecl = ImportDecl (WEAK: bool) (PUBLIC: bool) (importedFileName: string)

datatype PackageDecl = PackageDecl (packageName: string)

datatype SyntaxDecl = SyntaxDecl (syntaxLevel: string)

datatype FieldDecl =
  FieldDecl (fieldCardinality: "string option") (typeName: string) (fieldName: string)
    (fieldNumber: string) (compactOptions: "string option")

datatype MapFieldDecl =
  MapFieldDecl (mapKeyType: string) (mapValueType: string) (mapFieldName: string)
    (mapFieldNumber: string) (mapCompactOptions: "string option")

datatype OneofFieldDecl =
  OneofFieldDecl (oneofTypeName: string) (oneofFieldName: string) (oneofFieldNumber: string)
    (oneofCompactOptions: "string option")

datatype EnumElement =
    EnumElement_optionDecl OptionDecl
  | EnumElement_enumValueDecl string
  | EnumElement_enumReservedDecl string
  | EnumElement_emptyDecl

datatype EnumDecl = EnumDecl (enumName: string) (enumElements: "EnumElement list")

datatype MessageElement =
    MessageElement_fieldDecl FieldDecl
  | MessageElement_groupDecl GroupDecl
  | MessageElement_oneofDecl OneofDecl
  | MessageElement_optionDecl OptionDecl
  | MessageElement_extensionRangeDecl string
  | MessageElement_messageReservedDecl string
  | MessageElement_messageDecl MessageDecl
  | MessageElement_enumDecl EnumDecl
  | MessageElement_extensionDecl ExtensionDecl
  | MessageElement_mapFieldDecl MapFieldDecl
  | MessageElement_emptyDecl
and GroupDecl =
  GroupDecl "string option" string string "string option" "MessageElement list"
and OneofDecl = OneofDecl string "OneofElement list"
and OneofElement =
    OneofElement_optionDecl OptionDecl
  | OneofElement_oneofFieldDecl OneofFieldDecl
  | OneofElement_oneofGroupDecl OneofGroupDecl
and OneofGroupDecl = OneofGroupDecl string string "string option" "MessageElement list"
and MessageDecl = MessageDecl string "MessageElement list"
and ExtensionDecl = ExtensionDecl string "ExtensionElement list"
and ExtensionElement =
    ExtensionElement_fieldDecl FieldDecl
  | ExtensionElement_groupDecl GroupDecl

datatype MessageType = MessageType (STREAM: bool) (messageTypeName: string)

datatype MethodElement = MethodElement_optionDecl OptionDecl | MethodElement_emptyDecl

text \<open>The method's elements are \<open>None\<close> when the declaration ends with a semicolon.\<close>

datatype MethodDecl =
  MethodDecl (methodName: string) (inputType: MessageType) (outputType: MessageType)
    (methodElements: "MethodElement list option")

datatype ServiceElement =
    ServiceElement_optionDecl OptionDecl
  | ServiceElement_methodDecl MethodDecl
  | ServiceElement_emptyDecl

datatype ServiceDecl = ServiceDecl (serviceName: string) (serviceElements: "ServiceElement list")

datatype FileElement =
    FileElement_importDecl ImportDecl
  | FileElement_packageDecl PackageDecl
  | FileElement_optionDecl OptionDecl
  | FileElement_messageDecl MessageDecl
  | FileElement_enumDecl EnumDecl
  | FileElement_extensionDecl ExtensionDecl
  | FileElement_serviceDecl ServiceDecl
  | FileElement_emptyDecl
  | FileElement_other

datatype File =
  File (BYTE_ORDER_MARK: "string option") (syntaxDecl: "SyntaxDecl option")
    (fileElements: "FileElement list")

section \<open>The generators\<close>

text \<open>
  Every \<open>generate_*\<close> function builds its text in a \<open>StringIO\<close> and returns it; the model
  returns the concatenation of the writes in their order. A \<open>for\<close> loop over children
  that calls a generator on each is \<open>map_gen\<close>: it stops at the first exception.
\<close>

lemma gbind_cong [fundef_cong]:
  "m = m' \<Longrightarrow> (\<And>a. f a = f' a) \<Longrightarrow> gbind m f = gbind m' f'"
  by (auto simp: gbind_def fun_eq_iff split: prod.splits sum.splits)

fun map_gen :: "('a \<Rightarrow> 'b gen) \<Rightarrow> 'a list \<Rightarrow> 'b list gen" where
  "map_gen f [] = ret []"
| "map_gen f (x # xs) = gbind (f x) (\<lambda>r. gbind (map_gen f xs) (\<lambda>rs. ret (r # rs)))"

lemma map_gen_cong [fundef_cong]:
  "xs = ys \<Longrightarrow> (\<And>x. x \<in> set ys \<Longrightarrow> f x = g x) \<Longrightarrow> map_gen f xs = map_gen g ys"
  by (induction ys arbitrary: xs) auto

text \<open>Lines 81-91. The package declaration sets \<open>self.package_name\<close>.\<close>

definition generate_package_decl :: "PackageDecl \<Rightarrow> string gen" where
  "generate_package_decl node s =
     (Inr (''package '' @ packageName node @ '';\<newline>''),
      s\<lparr>package_name := Some (packageName node)\<rparr>)"

text \<open>Lines 99-115.\<close>

definition generate_import_decl :: "ImportDecl \<Rightarrow> (string \<times> bool) gen" where
  "generate_import_decl node s =
     (let imported_file_name = importedFileName node;
          should_render_this = (slice_1_m1 imported_file_name \<in> set (rendered_files s))
      in (Inr (''import '' @ (if WEAK node then ''weak '' else []) @
               (if PUBLIC node then ''public '' else []) @
               imported_file_name @ '';\<newline>'', should_render_this), s))"

text \<open>Lines 129-139.\<close>

definition generate_syntax_decl :: "SyntaxDecl \<Rightarrow> string" where
  "generate_syntax_decl node = ''syntax '' @ ''= '' @ syntaxLevel node @ '';\<newline>''"

text \<open>
  Lines 370-386. \<open>not self.include_rpc_with_option_names\<close> holds for \<open>None\<close> and for the
  empty list.
\<close>

definition generate_option_decl :: "OptionDecl \<Rightarrow> (string \<times> bool) gen" where
  "generate_option_decl node s =
     (let option_name = optionName node;
          should_render_this =
            (case include_rpc_with_option_names s of
               None \<Rightarrow> True
             | Some names \<Rightarrow> names = [] \<or> slice_1_m1 option_name \<in> set names)
      in (Inr (''option '' @ option_name @ '' '' @ ''= '' @ optionValue node @ '';\<newline>'',
               should_render_this), s))"

text \<open>Lines 531-535.\<close>

definition generate_empty_decl :: string where
  "generate_empty_decl = '';\<newline>''"

text \<open>
  Lines 537-552. The option branch writes the pair that \<open>generate_option_decl\<close> returns,
  and \<open>StringIO.write\<close> raises \<open>TypeError\<close> on it.
\<close>

fun generate_enum_element :: "EnumElement \<Rightarrow> nat \<Rightarrow> string gen" where
  "generate_enum_element (EnumElement_optionDecl child) indent =
     gbind (generate_option_decl child) (\<lambda>r. raise TypeError)"
| "generate_enum_element (EnumElement_enumValueDecl text) indent = ret (spaces indent @ text)"
| "generate_enum_element (EnumElement_enumReservedDecl text) indent = ret (spaces indent @ text)"
| "generate_enum_element EnumElement_emptyDecl indent = ret (spaces indent @ generate_empty_decl)"

text \<open>Lines 835-853.\<close>

definition generate_enum_decl :: "EnumDecl \<Rightarrow> nat \<Rightarrow> (string \<times> bool) gen" where
  "generate_enum_decl node indent =
     gbind (create_usage_node_from_type_name (enumName node) None (Some Enum)) (\<lambda>usage_node.
     gbind (determine_node_state usage_node) (\<lambda>should_render_this.
     gbind (map_gen (\<lambda>child. generate_enum_element child (indent + 1)) (enumElements node))
       (\<lambda>elements.
     ret (spaces indent @ ''enum '' @ enumName node @ '' '' @ ''{\<newline>'' @ concat elements @
          spaces indent @ ''}\<newline>'', should_render_this))))"

text \<open>Lines 683-705: the field's type is resolved after the text is written.\<close>

definition generate_field_decl :: "FieldDecl \<Rightarrow> key option \<Rightarrow> string gen" where
  "generate_field_decl node usage_parent =
     gbind (create_usage_node_from_type_name (typeName node) usage_parent None) (\<lambda>usage_node.
     ret ((case fieldCardinality node of Some c \<Rightarrow> c @ '' '' | None \<Rightarrow> []) @
          typeName node @ '' '' @ fieldName node @ '' '' @ ''= '' @ fieldNumber node @
          (case compactOptions node of Some c \<Rightarrow> '' '' @ c | None \<Rightarrow> []) @ '';\<newline>''))"

text \<open>Lines 620-638 and 873-888.\<close>

definition generate_map_type :: "MapFieldDecl \<Rightarrow> key option \<Rightarrow> string gen" where
  "generate_map_type node usage_parent =
     gbind (create_usage_node_from_type_name (mapValueType node) usage_parent None)
       (\<lambda>usage_node.
     ret (''map'' @ ''<'' @ mapKeyType node @ '', '' @ mapValueType node @ ''>''))"

definition generate_map_field_decl :: "MapFieldDecl \<Rightarrow> key option \<Rightarrow> string gen" where
  "generate_map_field_decl node usage_parent =
     gbind (generate_map_type node usage_parent) (\<lambda>map_type.
     ret (map_type @ '' '' @ mapFieldName node @ '' '' @ ''= '' @ mapFieldNumber node @
          (case mapCompactOptions node of Some c \<Rightarrow> '' '' @ c | None \<Rightarrow> []) @ '';\<newline>''))"

text \<open>Lines 560-575: the type of a oneof member is written, and not resolved.\<close>

definition generate_oneof_field_decl :: "OneofFieldDecl \<Rightarrow> string" where
  "generate_oneof_field_decl node =
     oneofTypeName node @ '' '' @ oneofFieldName node @ '' '' @ ''= '' @ oneofFieldNumber node @
     (case oneofCompactOptions node of Some c \<Rightarrow> c | None \<Rightarrow> []) @ '';\<newline>''"

text \<open>
  Lines 577-612, 707-743, 809-819, 855-871 and 890-940, which call one another; each loop
  over the elements of a declaration calls the element's generator with the indent and
  the parent of that declaration. In \<open>generate_extension_element\<close> the call of
  \<open>generate_group_decl\<close> passes two arguments where three are required, and raises
  \<open>TypeError\<close> before the callee runs.
\<close>

primrec generate_message_element :: "MessageElement \<Rightarrow> nat \<Rightarrow> key option \<Rightarrow> string gen"
  and generate_group_decl :: "GroupDecl \<Rightarrow> nat \<Rightarrow> key option \<Rightarrow> string gen"
  and generate_oneof_decl :: "OneofDecl \<Rightarrow> nat \<Rightarrow> key option \<Rightarrow> string gen"
  and generate_oneof_element :: "OneofElement \<Rightarrow> nat \<Rightarrow> key option \<Rightarrow> string gen"
  and generate_oneof_group_decl :: "OneofGroupDecl \<Rightarrow> nat \<Rightarrow> key option \<Rightarrow> string gen"
  and generate_message_decl :: "MessageDecl \<Rightarrow> nat \<Rightarrow> key option \<Rightarrow> (string \<times> bool) gen"
  and generate_extension_decl :: "ExtensionDecl \<Rightarrow> nat \<Rightarrow> string gen"
  and generate_extension_element :: "ExtensionElement \<Rightarrow> nat \<Rightarrow> key option \<Rightarrow> string gen"
where
  "generate_message_element (MessageElement_fieldDecl child) indent usage_parent =
     gbind (generate_field_decl child usage_parent) (\<lambda>r. ret (spaces indent @ r))"
| "generate_message_element (MessageElement_groupDecl child) indent usage_parent =
     gbind (generate_group_decl child indent usage_parent) (\<lambda>r. ret (spaces indent @ r))"
| "generate_message_element (MessageElement_oneofDecl child) indent usage_parent =
     gbind (generate_oneof_decl child indent usage_parent) (\<lambda>r. ret (spaces indent @ r))"
| "generate_message_element (MessageElement_optionDecl child) indent usage_parent =
     gbind (generate_option_decl child) (\<lambda>r. ret (spaces indent @ fst r))"
| "generate_message_element (MessageElement_extensionRangeDecl text) indent usage_parent =
     ret (spaces indent @ text)"
| "generate_message_element (MessageElement_messageReservedDecl text) indent usage_parent =
     ret (spaces indent @ text)"
| "generate_message_element (MessageElement_messageDecl child) indent usage_parent =
     gbind (generate_message_decl child indent usage_parent) (\<lambda>r. ret (spaces indent @ fst r))"
| "generate_message_element (MessageElement_enumDecl child) indent usage_parent =
     gbind (generate_enum_decl child 0) (\<lambda>r. ret (spaces indent @ fst r))"
| "generate_message_element (MessageElement_extensionDecl child) indent usage_parent =
     gbind (generate_extension_decl child indent) (\<lambda>r. ret (spaces indent @ r))"
| "generate_message_element (MessageElement_mapFieldDecl child) indent usage_parent =
     gbind (generate_map_field_decl child usage_parent) (\<lambda>r. ret (spaces indent @ r))"
| "generate_message_element MessageElement_emptyDecl indent usage_parent =
     ret (spaces indent @ generate_empty_decl)"
| "generate_group_decl (GroupDecl cardinality field_name field_number compact elements)
       indent usage_parent =
     gbind (map_gen (\<lambda>child. child (indent + 1) usage_parent)
              (map (\<lambda>child. generate_message_element child) elements))
       (\<lambda>rs.
     ret ((case cardinality of Some c \<Rightarrow> c @ '' '' | None \<Rightarrow> []) @
          ''group '' @ field_name @ '' '' @ ''= '' @ field_number @
          (case compact of Some c \<Rightarrow> '' '' @ c | None \<Rightarrow> []) @
          spaces indent @ ''{\<newline>'' @ concat rs @ spaces indent @ ''}\<newline>''))"
| "generate_oneof_decl (OneofDecl oneof_name elements) indent usage_parent =
     gbind (map_gen (\<lambda>child. child (indent + 1) usage_parent)
              (map (\<lambda>child. generate_oneof_element child) elements))
       (\<lambda>rs.
     ret (''oneof '' @ oneof_name @ '' '' @ ''{\<newline>'' @ concat rs @
          spaces indent @ ''}\<newline>''))"
| "generate_oneof_element (OneofElement_optionDecl child) indent usage_parent =
     gbind (generate_option_decl child) (\<lambda>r. ret (spaces indent @ fst r))"
| "generate_oneof_element (OneofElement_oneofFieldDecl child) indent usage_parent =
     ret (spaces indent @ generate_oneof_field_decl child)"
| "generate_oneof_element (OneofElement_oneofGroupDecl child) indent usage_parent =
     gbind (generate_oneof_group_decl child (indent + 1) usage_parent)
       (\<lambda>r. ret (spaces indent @ r))"
| "generate_oneof_group_decl (OneofGroupDecl field_name field_number compact elements)
       indent usage_parent =
     gbind (map_gen (\<lambda>child. child (indent + 1) usage_parent)
              (map (\<lambda>child. generate_message_element child) elements))
       (\<lambda>rs.
     ret (''group '' @ field_name @ '' '' @ ''= '' @ field_number @
          (case compact of Some c \<Rightarrow> c @ '' '' | None \<Rightarrow> []) @
          spaces indent @ ''{\<newline>'' @ concat rs @ spaces indent @ ''}\<newline>''))"
| "generate_message_decl (MessageDecl message_name elements) indent usage_parent =
     gbind (create_usage_node_from_type_name message_name usage_parent None) (\<lambda>usage_node.
     gbind (determine_node_state usage_node) (\<lambda>should_render_this.
     gbind (map_gen (\<lambda>child. child (indent + 1) usage_node)
              (map (\<lambda>child. generate_message_element child) elements))
       (\<lambda>rs.
     gbind (create_usage_node_from_type_name message_name usage_parent None) (\<lambda>again.
     ret (''message '' @ message_name @ '' '' @ ''{\<newline>'' @ concat rs @
          spaces indent @ ''}\<newline>'', should_render_this)))))"
| "generate_extension_decl (ExtensionDecl type_name elements) indent =
     gbind (create_usage_node_from_type_name type_name None (Some Extend)) (\<lambda>usage_node.
     gbind (map_gen (\<lambda>child. child (indent + 1) usage_node)
              (map (\<lambda>child. generate_extension_element child) elements))
       (\<lambda>rs.
     ret (''extend '' @ type_name @ '' '' @ ''{\<newline>'' @ concat rs @
          spaces indent @ ''}\<newline>'')))"
| "generate_extension_element (ExtensionElement_fieldDecl child) indent usage_parent =
     gbind (generate_field_decl child usage_parent) (\<lambda>r. ret (spaces indent @ r))"
| "generate_extension_element (ExtensionElement_groupDecl child) indent usage_parent =
     raise TypeError"

text \<open>Lines 652-681: \<open>generate_input_type\<close> and \<open>generate_output_type\<close> only pass on.\<close>

definition generate_message_type :: "MessageType \<Rightarrow> key option \<Rightarrow> string gen" where
  "generate_message_type node usage_parent =
     gbind (create_usage_node_from_type_name (messageTypeName node) usage_parent None)
       (\<lambda>usage_node.
     ret (''('' @ (if STREAM node then ''stream '' else []) @ messageTypeName node @ '')''))"

text \<open>Lines 942-954.\<close>

fun generate_method_element :: "MethodElement \<Rightarrow> nat \<Rightarrow> (string \<times> bool) gen" where
  "generate_method_element (MethodElement_optionDecl child) indent =
     gbind (generate_option_decl child) (\<lambda>r. ret (spaces indent @ fst r, snd r))"
| "generate_method_element MethodElement_emptyDecl indent =
     ret (spaces indent @ generate_empty_decl, False)"

text \<open>
  Line 988, \<open>usage_node.should_render = should_render_this\<close>: an assignment, whatever the
  flag was; on \<open>None\<close> it raises \<open>AttributeError\<close>.
\<close>

definition assign_should_render :: "key option \<Rightarrow> bool \<Rightarrow> unit gen" where
  "assign_should_render usage_node b s =
     (case usage_node of
        None \<Rightarrow> (Inl AttributeError, s)
      | Some k \<Rightarrow> (Inr (), s\<lparr>usage_nodes := set_should_render k b (usage_nodes s)\<rparr>))"

text \<open>Lines 956-989.\<close>

definition generate_method_decl :: "MethodDecl \<Rightarrow> nat \<Rightarrow> (string \<times> bool) gen" where
  "generate_method_decl node indent =
     gbind (create_usage_node_from_type_name (methodName node) None (Some Rpc)) (\<lambda>usage_node.
     gbind (generate_message_type (inputType node) usage_node) (\<lambda>input_type.
     gbind (generate_message_type (outputType node) usage_node) (\<lambda>output_type.
     gbind (case methodElements node of
              None \<Rightarrow> ret ('';\<newline>'', False)
            | Some elements \<Rightarrow>
                gbind (map_gen (\<lambda>child. generate_method_element child (indent + 1)) elements)
                  (\<lambda>rs.
                ret (''{'' @ (if elements \<noteq> [] then ''\<newline>'' else []) @ concat (map fst rs) @
                     spaces indent @ ''}\<newline>'', list_ex snd rs))) (\<lambda>body.
     gbind (assign_should_render usage_node (snd body)) (\<lambda>u.
     ret (''rpc '' @ methodName node @ input_type @ '' '' @ ''returns '' @ output_type @
          fst body, snd body))))))"

text \<open>Lines 991-1006.\<close>

fun generate_service_element :: "ServiceElement \<Rightarrow> nat \<Rightarrow> (string \<times> bool) gen" where
  "generate_service_element (ServiceElement_optionDecl child) indent =
     gbind (generate_option_decl child) (\<lambda>r. ret (spaces indent @ fst r, False))"
| "generate_service_element (ServiceElement_methodDecl child) indent =
     gbind (generate_method_decl child indent)
       (\<lambda>r. ret (spaces indent @ (if snd r then fst r else []), snd r))"
| "generate_service_element ServiceElement_emptyDecl indent =
     ret (spaces indent @ generate_empty_decl, False)"

text \<open>Lines 1008-1024.\<close>

definition generate_service_decl :: "ServiceDecl \<Rightarrow> nat \<Rightarrow> (string \<times> bool) gen" where
  "generate_service_decl node indent =
     gbind (map_gen (\<lambda>child. generate_service_element child (indent + 1)) (serviceElements node))
       (\<lambda>rs.
     ret (spaces indent @ ''service '' @ serviceName node @ '' '' @ ''{\<newline>'' @
          concat (map (\<lambda>r. if snd r then fst r else []) rs) @
          spaces indent @ ''}\<newline>'', list_ex snd rs))"

text \<open>Lines 1026-1055.\<close>

fun generate_file_element :: "FileElement \<Rightarrow> (string \<times> bool) gen" where
  "generate_file_element (FileElement_importDecl child) =
     gbind (generate_import_decl child) (\<lambda>r. ret (if snd r then fst r else [], False))"
| "generate_file_element (FileElement_packageDecl child) =
     gbind (generate_package_decl child) (\<lambda>r. ret (r, False))"
| "generate_file_element (FileElement_optionDecl child) =
     gbind (generate_option_decl child) (\<lambda>r. ret (fst r, False))"
| "generate_file_element (FileElement_messageDecl child) =
     gbind (generate_message_decl child 0 None)
       (\<lambda>r. ret (if snd r then fst r else [], snd r))"
| "generate_file_element (FileElement_enumDecl child) =
     gbind (generate_enum_decl child 0) (\<lambda>r. ret (if snd r then fst r else [], snd r))"
| "generate_file_element (FileElement_extensionDecl child) =
     gbind (generate_extension_decl child 0) (\<lambda>r. ret (r, False))"
| "generate_file_element (FileElement_serviceDecl child) =
     gbind (generate_service_decl child 0) (\<lambda>r. ret (fst r, snd r))"
| "generate_file_element FileElement_emptyDecl = ret (generate_empty_decl, False)"
| "generate_file_element FileElement_other = ret (''!!Error!!'', False)"

text \<open>Lines 1057-1068.\<close>

text \<open>(\<open>generate_file\<close> is a command of Isabelle, hence the prime.)\<close>

definition generate_file' :: "File \<Rightarrow> (string \<times> bool) gen" where
  "generate_file' node =
     gbind (map_gen generate_file_element (fileElements node)) (\<lambda>rs.
     ret ((case BYTE_ORDER_MARK node of Some b \<Rightarrow> b | None \<Rightarrow> []) @
          (case syntaxDecl node of Some d \<Rightarrow> generate_syntax_decl d | None \<Rightarrow> []) @
          concat (map fst rs), list_ex snd rs))"

text \<open>
  Lines 38-47. An exception in \<open>generate_file'\<close> leaves \<open>usage_graph_creation_phase\<close> set.
\<close>

definition create_usage_graph :: "File \<Rightarrow> bool \<Rightarrow> graph gen" where
  "create_usage_graph tree empty_list s =
     (let s1 = s\<lparr>usage_graph_creation_phase := True\<rparr>;
          s2 = (if empty_list then s1\<lparr>usage_nodes := []\<rparr> else s1)
      in case generate_file' tree s2 of
           (Inl e, s3) \<Rightarrow> (Inl e, s3)
         | (Inr r, s3) \<Rightarrow> (Inr (usage_nodes s3), s3\<lparr>usage_graph_creation_phase := False\<rparr>))"

definition regenerate_file :: "File \<Rightarrow> (string \<times> bool) gen" where
  "regenerate_file tree = generate_file' tree"

section \<open>The run (main.py, lines 21-60)\<close>

text \<open>
  Walking the source directories and parsing are the file system's and the parser's work:
  a run is given the list of the files \<open>process_files\<close> finds, each with its
  \<open>relative_path\<close>, its name and its parsed tree, the same list for the three passes.
  \<open>os.path.join\<close> of a relative directory and a file name puts a slash between them. The
  files written are returned as the list of their paths below the destination directory
  with their contents.
\<close>

type_synonym source_file = "string \<times> string \<times> File"

text \<open>\<open>os.path.join\<close> of two components (\<open>posixpath\<close>).\<close>

definition os_path_join :: "string \<Rightarrow> string \<Rightarrow> string" where
  "os_path_join a b =
     (if b \<noteq> [] \<and> hd b = CHR ''/'' then b
      else if a = [] \<or> last a = CHR ''/'' then a @ b
      else a @ ''/'' @ b)"

text \<open>Lines 34-36 and 57: no exception is caught in the first pass.\<close>

fun create_usage_graphs :: "source_file list \<Rightarrow> unit gen" where
  "create_usage_graphs [] = ret ()"
| "create_usage_graphs ((relative_path, file, tree) # files) =
     gbind (create_usage_graph tree False) (\<lambda>g. create_usage_graphs files)"

text \<open>Lines 38-55: one file of a render pass; an exception is printed and swallowed.\<close>

definition regenerate_files ::
  "bool \<Rightarrow> source_file \<Rightarrow> (string \<times> string) list \<times> ProtoModifier \<Rightarrow>
   (string \<times> string) list \<times> ProtoModifier" where
  "regenerate_files dry_run f ws =
     (case f of (relative_path, file, tree) \<Rightarrow>
      (case regenerate_file tree (snd ws) of
         (Inl e, s') \<Rightarrow> (fst ws, s')
       | (Inr (output, should_render'), s') \<Rightarrow>
           if should_render' \<and> \<not> dry_run
           then (fst ws @ [(os_path_join relative_path file, output)], s')
           else if should_render' \<and> dry_run
           then (fst ws, s'\<lparr>rendered_files := rendered_files s' @ [os_path_join relative_path file]\<rparr>)
           else (fst ws, s')))"

definition output_processor ::
  "bool \<Rightarrow> source_file list \<Rightarrow> (string \<times> string) list \<times> ProtoModifier \<Rightarrow>
   (string \<times> string) list \<times> ProtoModifier" where
  "output_processor dry_run files ws = foldl (\<lambda>acc f. regenerate_files dry_run f acc) ws files"

text \<open>Lines 30-60.\<close>

definition main ::
  "string list option \<Rightarrow> source_file list \<Rightarrow> error + ((string \<times> string) list \<times> ProtoModifier)" where
  "main option_name files =
     (case create_usage_graphs files (init option_name) of
        (Inl e, s1) \<Rightarrow> Inl e
      | (Inr u, s1) \<Rightarrow>
          (let s2 = update_should_render_state s1;
               dry = output_processor True files ([], s2)
           in Inr (output_processor False files dry)))"

section \<open>Notions the properties are stated with\<close>

definition alive :: "graph \<Rightarrow> key \<Rightarrow> bool" where
  "alive g k = (case map_of g k of None \<Rightarrow> False | Some n \<Rightarrow> should_render n)"

definition node_children :: "graph \<Rightarrow> key \<Rightarrow> key list" where
  "node_children g k = (case map_of g k of None \<Rightarrow> [] | Some n \<Rightarrow> children n)"

definition edges :: "graph \<Rightarrow> (key \<times> key) set" where
  "edges g = {(a, b). b \<in> set (node_children g a)}"


definition skeleton :: "graph \<Rightarrow> graph" where
  "skeleton g = map (\<lambda>kn. (fst kn, (snd kn)\<lparr>should_render := False\<rparr>)) g"

definition loop_step :: "graph \<Rightarrow> key \<Rightarrow> UsageNode \<Rightarrow> graph" where
  "loop_step g k n =
     (let g1 = (if kind n = Rpc \<and> should_render n
                then update_should_render_state_each g (children n) else g);
          g2 = (if package n = ''google.protobuf''
                then update_should_render_state_each (set_should_render k True g1) (children n)
                else g1)
      in g2)"







definition ex_tracked_file :: File where
  "ex_tracked_file =
     File None (Some (SyntaxDecl ''\"proto3\"''))
       [FileElement_packageDecl (PackageDecl ''p''),
        FileElement_messageDecl
          (MessageDecl ''A'' [MessageElement_fieldDecl (FieldDecl None ''B'' ''b'' ''1'' None)]),
        FileElement_messageDecl
          (MessageDecl ''B'' [MessageElement_fieldDecl (FieldDecl None ''A'' ''a'' ''1'' None)]),
        FileElement_messageDecl (MessageDecl ''C'' []),
        FileElement_serviceDecl
          (ServiceDecl ''S''
             [ServiceElement_methodDecl
                (MethodDecl ''Get'' (MessageType False ''A'') (MessageType False ''B'')
                   (Some [MethodElement_optionDecl (OptionDecl ''(tracked)'' ''true'')]))])]"

definition ex_tracked_built :: ProtoModifier where
  "ex_tracked_built =
     snd (create_usage_graphs [(''x'', ''a.proto'', ex_tracked_file)] (init (Some [''tracked''])))"

text \<open>
  A generator \<open>preserves\<close> a property of the modifier when the property holds after it,
  whatever it returns, if it held before; it \<open>returns\<close> a property when every result it
  returns has it.
\<close>

definition preserves :: "(ProtoModifier \<Rightarrow> bool) \<Rightarrow> 'a gen \<Rightarrow> bool" where
  "preserves P m \<longleftrightarrow> (\<forall>s. P s \<longrightarrow> P (snd (m s)))"

definition service_method_names :: "ServiceDecl \<Rightarrow> string list" where
  "service_method_names sd =
     concat (map (\<lambda>e. case e of ServiceElement_methodDecl m \<Rightarrow> [methodName m] | _ \<Rightarrow> [])
               (serviceElements sd))"

definition method_names :: "File \<Rightarrow> string list" where
  "method_names tree =
     concat (map (\<lambda>e. case e of FileElement_serviceDecl sd \<Rightarrow> service_method_names sd | _ \<Rightarrow> [])
               (fileElements tree))"

definition method_symbol_names :: "File \<Rightarrow> string list" where
  "method_symbol_names tree = concat (map split_dot (method_names tree))"

definition package_decls :: "File \<Rightarrow> PackageDecl list" where
  "package_decls tree =
     concat (map (\<lambda>e. case e of FileElement_packageDecl pd \<Rightarrow> [pd] | _ \<Rightarrow> [])
               (fileElements tree))"

definition names_part :: "string \<Rightarrow> key option \<Rightarrow> bool" where
  "names_part t r = (case r of None \<Rightarrow> True | Some key \<Rightarrow> snd key \<in> set (split_dot t))"

definition returns :: "('a \<Rightarrow> bool) \<Rightarrow> 'a gen \<Rightarrow> bool" where
  "returns Q m \<longleftrightarrow> (\<forall>s a s'. m s = (Inr a, s') \<longrightarrow> Q a)"


text \<open>
  More inputs. \<open>ex_get_tracked_file\<close> and \<open>ex_get_plain_file\<close> declare a method \<open>Get\<close> in
  package \<open>p\<close>, in services \<open>S1\<close> (with \<open>option (t) = true;\<close>) and \<open>S2\<close> (ending with a
  semicolon). \<open>ex_no_package_file\<close> is \<^verbatim>\<open>message X { }\<close>. \<open>ex_two_services_file\<close>:
  \<^verbatim>\<open>package p; message A { } service Kept { rpc Get(A) returns (A) { option (tracked) = true; } }
  service Dropped { rpc Put(A) returns (A); }\<close>
  \<open>ex_deprecated_file\<close>:
  \<^verbatim>\<open>package p; message A { } service S { rpc Old(A) returns (A) { option deprecated = true; } }\<close>
  \<open>ex_import_files\<close> are \<open>x/f.proto\<close>, \<^verbatim>\<open>package p; message U { }\<close>, and \<open>x/g.proto\<close>,
  \<^verbatim>\<open>import "x/f.proto"; package p; message A { }
  service S { rpc Get(A) returns (A) { option (t) = true; } }\<close>
  \<open>written\<close> is the list of files a run wrote, empty when the run was aborted.
\<close>

definition ex_get_tracked_file :: File where
  "ex_get_tracked_file =
     File None None
       [FileElement_packageDecl (PackageDecl ''p''),
        FileElement_serviceDecl
          (ServiceDecl ''S1''
             [ServiceElement_methodDecl
                (MethodDecl ''Get'' (MessageType False ''A'') (MessageType False ''A'')
                   (Some [MethodElement_optionDecl (OptionDecl ''(t)'' ''true'')]))])]"

definition ex_get_plain_file :: File where
  "ex_get_plain_file =
     File None None
       [FileElement_packageDecl (PackageDecl ''p''),
        FileElement_serviceDecl
          (ServiceDecl ''S2''
             [ServiceElement_methodDecl
                (MethodDecl ''Get'' (MessageType False ''A'') (MessageType False ''A'') None)])]"

definition ex_get_tracked_built :: ProtoModifier where
  "ex_get_tracked_built = snd (create_usage_graph ex_get_tracked_file False (init None))"


definition ex_no_package_file :: File where
  "ex_no_package_file = File None None [FileElement_messageDecl (MessageDecl ''X'' [])]"

definition ex_dropped_service :: ServiceDecl where
  "ex_dropped_service =
     ServiceDecl ''Dropped''
       [ServiceElement_methodDecl
          (MethodDecl ''Put'' (MessageType False ''A'') (MessageType False ''A'') None)]"

definition ex_two_services_file :: File where
  "ex_two_services_file =
     File None None
       [FileElement_packageDecl (PackageDecl ''p''),
        FileElement_messageDecl (MessageDecl ''A'' []),
        FileElement_serviceDecl
          (ServiceDecl ''Kept''
             [ServiceElement_methodDecl
                (MethodDecl ''Get'' (MessageType False ''A'') (MessageType False ''A'')
                   (Some [MethodElement_optionDecl (OptionDecl ''(tracked)'' ''true'')]))]),
        FileElement_serviceDecl ex_dropped_service]"

definition ex_deprecated_method :: MethodDecl where
  "ex_deprecated_method =
     MethodDecl ''Old'' (MessageType False ''A'') (MessageType False ''A'')
       (Some [MethodElement_optionDecl (OptionDecl ''deprecated'' ''true'')])"

definition ex_deprecated_file :: File where
  "ex_deprecated_file =
     File None None
       [FileElement_packageDecl (PackageDecl ''p''),
        FileElement_messageDecl (MessageDecl ''A'' []),
        FileElement_serviceDecl
          (ServiceDecl ''S'' [ServiceElement_methodDecl ex_deprecated_method])]"

definition ex_imported_file :: File where
  "ex_imported_file =
     File None None
       [FileElement_packageDecl (PackageDecl ''p''),
        FileElement_messageDecl (MessageDecl ''U'' [])]"

definition ex_importing_file :: File where
  "ex_importing_file =
     File None None
       [FileElement_importDecl (ImportDecl False False ''\"x/f.proto\"''),
        FileElement_packageDecl (PackageDecl ''p''),
        FileElement_messageDecl (MessageDecl ''A'' []),
        FileElement_serviceDecl
          (ServiceDecl ''S''
             [ServiceElement_methodDecl
                (MethodDecl ''Get'' (MessageType False ''A'') (MessageType False ''A'')
                   (Some [MethodElement_optionDecl (OptionDecl ''(t)'' ''true'')]))])]"

definition ex_import_files :: "source_file list" where
  "ex_import_files = [(''x'', ''f.proto'', ex_imported_file), (''x'', ''g.proto'', ex_importing_file)]"

definition ex_import_dry :: ProtoModifier where
  "ex_import_dry =
     snd (output_processor True ex_import_files
            ([], update_should_render_state (snd (create_usage_graphs ex_import_files (init None)))))"

definition written :: "error + ((string \<times> string) list \<times> ProtoModifier) \<Rightarrow> (string \<times> string) list" where
  "written r = (case r of Inl e \<Rightarrow> [] | Inr ws \<Rightarrow> fst ws)"





definition ex_two_services_dry :: ProtoModifier where
  "ex_two_services_dry =
     snd (output_processor True [(''x'', ''a.proto'', ex_two_services_file)]
            ([], update_should_render_state
                   (snd (create_usage_graphs [(''x'', ''a.proto'', ex_two_services_file)]
                           (init (Some [''tracked'']))))))"

definition ex_deprecated_state :: ProtoModifier where
  "ex_deprecated_state =
     (init (Some [''deprecated'']))\<lparr>package_name := Some ''p'', usage_graph_creation_phase := True\<rparr>"

text \<open>
  \<open>ex_top_files\<close> are two files at the top of the source directory, whose relative path
  is \<open>.\<close>: \<open>f.proto\<close>, which is \<open>ex_get_tracked_file\<close>, and \<open>g.proto\<close>,
  \<^verbatim>\<open>import "f.proto"; package p; service T { rpc Put(A) returns (A) { option (t) = true; } }\<close>
\<close>

definition ex_top_importing_file :: File where
  "ex_top_importing_file =
     File None None
       [FileElement_importDecl (ImportDecl False False ''\"f.proto\"''),
        FileElement_packageDecl (PackageDecl ''p''),
        FileElement_serviceDecl
          (ServiceDecl ''T''
             [ServiceElement_methodDecl
                (MethodDecl ''Put'' (MessageType False ''A'') (MessageType False ''A'')
                   (Some [MethodElement_optionDecl (OptionDecl ''(t)'' ''true'')]))])]"

definition ex_top_files :: "source_file list" where
  "ex_top_files = [(''.'', ''f.proto'', ex_get_tracked_file), (''.'', ''g.proto'', ex_top_importing_file)]"

text \<open>
  What the flags of the walk come to. An option declaration \<open>matches\<close> when the filter is
  unset or empty, or when its name without its first and last character is in the filter
  (line 377); a method is \<open>retained\<close> when an option declaration of its body matches; a
  service, when one of its methods is.
\<close>

definition option_matches :: "string list option \<Rightarrow> OptionDecl \<Rightarrow> bool" where
  "option_matches names od =
     (case names of None \<Rightarrow> True | Some l \<Rightarrow> l = [] \<or> slice_1_m1 (optionName od) \<in> set l)"

definition method_retained :: "string list option \<Rightarrow> MethodDecl \<Rightarrow> bool" where
  "method_retained names node =
     (case methodElements node of
        None \<Rightarrow> False
      | Some elements \<Rightarrow>
          list_ex (\<lambda>e. case e of MethodElement_optionDecl od \<Rightarrow> option_matches names od
                               | MethodElement_emptyDecl \<Rightarrow> False) elements)"

definition service_retained :: "string list option \<Rightarrow> ServiceDecl \<Rightarrow> bool" where
  "service_retained names node =
     list_ex (\<lambda>e. case e of ServiceElement_methodDecl m \<Rightarrow> method_retained names m
                          | ServiceElement_optionDecl od \<Rightarrow> False
                          | ServiceElement_emptyDecl \<Rightarrow> False) (serviceElements node)"

text \<open>
  The methods of a run and their symbols. A method's symbol is \<open>(package, name)\<close> with
  the package that is active where the method is declared: the last package declaration
  the walk has visited, in this file or in an earlier one (\<open>package_after\<close>).
  \<open>run_rpcs\<close> lists the methods of all files with their symbols, in the order of the
  walk; \<open>kept\<close> are the symbols of those that have a qualifying option. \<open>rpcs_agree\<close>: the
  methods that share a symbol agree on having a qualifying option. \<open>method_names_plain\<close>:
  no method name holds a dot. \<open>seeded\<close> is what holds between two steps of the graph
  build: the alive symbols are symbols of kept methods, and the kept methods visited so
  far (\<open>V\<close>) have alive symbols.
\<close>

definition methods_of :: "ServiceElement list \<Rightarrow> MethodDecl list" where
  "methods_of elements =
     concat (map (\<lambda>e. case e of ServiceElement_methodDecl m \<Rightarrow> [m] | _ \<Rightarrow> []) elements)"

definition rpcs_of :: "string option \<Rightarrow> ServiceElement list \<Rightarrow> (key \<times> MethodDecl) list" where
  "rpcs_of pk elements =
     (case pk of None \<Rightarrow> []
      | Some p \<Rightarrow> map (\<lambda>m. ((p, methodName m), m)) (methods_of elements))"

fun package_after :: "string option \<Rightarrow> FileElement list \<Rightarrow> string option" where
  "package_after pk [] = pk"
| "package_after pk (e # es) =
     package_after (case e of FileElement_packageDecl pd \<Rightarrow> Some (packageName pd) | _ \<Rightarrow> pk) es"



definition kept :: "string list option \<Rightarrow> (key \<times> MethodDecl) list \<Rightarrow> key list" where
  "kept names rpcs = map fst (filter (\<lambda>km. method_retained names (snd km)) rpcs)"



definition seeded ::
  "(key \<times> MethodDecl) list \<Rightarrow> string list option \<Rightarrow> key set \<Rightarrow> ProtoModifier \<Rightarrow> bool" where
  "seeded D names V s \<longleftrightarrow>
     include_rpc_with_option_names s = names \<and>
     (\<forall>k. alive (usage_nodes s) k \<longrightarrow> k \<in> set (kept names D)) \<and>
     (\<forall>k\<in>V. alive (usage_nodes s) k)"

text \<open>
  \<open>ex_reset_files\<close> are \<open>x/a.proto\<close>,
  \<^verbatim>\<open>package p; message A { } service S1 { rpc Get(A) returns (A) { option (t) = true; } }\<close>
  and \<open>x/b.proto\<close>, which is \<open>ex_get_plain_file\<close>. \<open>ex_sub_files\<close> are \<open>x/f.proto\<close>, which is
  \<open>ex_get_tracked_file\<close>, and \<open>x/g.proto\<close>, which is \<open>ex_importing_file\<close>.
\<close>

definition ex_reset_file1 :: File where
  "ex_reset_file1 =
     File None None
       [FileElement_packageDecl (PackageDecl ''p''),
        FileElement_messageDecl (MessageDecl ''A'' []),
        FileElement_serviceDecl
          (ServiceDecl ''S1''
             [ServiceElement_methodDecl
                (MethodDecl ''Get'' (MessageType False ''A'') (MessageType False ''A'')
                   (Some [MethodElement_optionDecl (OptionDecl ''(t)'' ''true'')]))])]"

definition ex_reset_files :: "source_file list" where
  "ex_reset_files = [(''x'', ''a.proto'', ex_reset_file1), (''x'', ''b.proto'', ex_get_plain_file)]"

definition ex_sub_files :: "source_file list" where
  "ex_sub_files = [(''x'', ''f.proto'', ex_get_tracked_file), (''x'', ''g.proto'', ex_importing_file)]"

text \<open>
  The type references of a run. A name is \<open>plain\<close> when it holds no dot and is no scalar
  keyword: such a name is resolved under the active package. A reference is the symbol of
  the enclosing declaration, the type name written there, and whether it is the type of a
  oneof member. \<open>message_refs\<close> lists the references of a message that has a plain name:
  the types of its fields and map values, of the members of its oneofs, and of the fields
  inside its groups, each with the message's symbol, and the references of the messages
  declared inside it. \<open>method_refs\<close> are the input and output type of a method, with the
  method's symbol. \<open>run_refs\<close> lists the references of all files, with the package tracked
  as the walk does. \<open>recorded\<close>: the references with plain names, oneof members apart, are
  children edges of the graph. \<open>oneof_members_scalar\<close>: every oneof member has a scalar
  type. \<open>within\<close>: the graph build is running under package \<open>p\<close> and the symbol \<open>k\<close> exists.
\<close>

definition plain :: "string \<Rightarrow> bool" where
  "plain t \<longleftrightarrow> CHR ''.'' \<notin> set t \<and> t \<notin> set scalar_types"

type_synonym ref = "key \<times> string \<times> bool"

primrec element_refs :: "MessageElement \<Rightarrow> string \<Rightarrow> key \<Rightarrow> ref list"
  and group_refs :: "GroupDecl \<Rightarrow> string \<Rightarrow> key \<Rightarrow> ref list"
  and oneof_refs :: "OneofDecl \<Rightarrow> string \<Rightarrow> key \<Rightarrow> ref list"
  and oneof_element_refs :: "OneofElement \<Rightarrow> string \<Rightarrow> key \<Rightarrow> ref list"
  and oneof_group_refs :: "OneofGroupDecl \<Rightarrow> string \<Rightarrow> key \<Rightarrow> ref list"
  and message_refs :: "MessageDecl \<Rightarrow> string \<Rightarrow> ref list"
where
  "element_refs (MessageElement_fieldDecl child) p k = [(k, typeName child, False)]"
| "element_refs (MessageElement_groupDecl child) p k = group_refs child p k"
| "element_refs (MessageElement_oneofDecl child) p k = oneof_refs child p k"
| "element_refs (MessageElement_optionDecl child) p k = []"
| "element_refs (MessageElement_extensionRangeDecl text) p k = []"
| "element_refs (MessageElement_messageReservedDecl text) p k = []"
| "element_refs (MessageElement_messageDecl child) p k = message_refs child p"
| "element_refs (MessageElement_enumDecl child) p k = []"
| "element_refs (MessageElement_extensionDecl child) p k = []"
| "element_refs (MessageElement_mapFieldDecl child) p k = [(k, mapValueType child, False)]"
| "element_refs MessageElement_emptyDecl p k = []"
| "group_refs (GroupDecl cardinality field_name field_number compact elements) p k =
     concat (map (\<lambda>child. child p k) (map (\<lambda>child. element_refs child) elements))"
| "oneof_refs (OneofDecl oneof_name elements) p k =
     concat (map (\<lambda>child. child p k) (map (\<lambda>child. oneof_element_refs child) elements))"
| "oneof_element_refs (OneofElement_optionDecl child) p k = []"
| "oneof_element_refs (OneofElement_oneofFieldDecl child) p k = [(k, oneofTypeName child, True)]"
| "oneof_element_refs (OneofElement_oneofGroupDecl child) p k = oneof_group_refs child p k"
| "oneof_group_refs (OneofGroupDecl field_name field_number compact elements) p k =
     concat (map (\<lambda>child. child p k) (map (\<lambda>child. element_refs child) elements))"
| "message_refs (MessageDecl message_name elements) p =
     (if plain message_name
      then concat (map (\<lambda>child. child p (p, message_name))
                     (map (\<lambda>child. element_refs child) elements))
      else [])"

definition method_refs :: "string \<Rightarrow> MethodDecl \<Rightarrow> ref list" where
  "method_refs p m =
     [((p, methodName m), messageTypeName (inputType m), False),
      ((p, methodName m), messageTypeName (outputType m), False)]"

definition service_element_refs :: "string option \<Rightarrow> ServiceElement \<Rightarrow> ref list" where
  "service_element_refs pk e =
     (case e of
        ServiceElement_methodDecl m \<Rightarrow> (case pk of None \<Rightarrow> [] | Some p \<Rightarrow> method_refs p m)
      | _ \<Rightarrow> [])"

fun declared_refs :: "string option \<Rightarrow> FileElement list \<Rightarrow> ref list" where
  "declared_refs pk [] = []"
| "declared_refs pk (e # es) =
     (case e of
        FileElement_packageDecl pd \<Rightarrow> declared_refs (Some (packageName pd)) es
      | FileElement_messageDecl md \<Rightarrow>
          (case pk of None \<Rightarrow> [] | Some p \<Rightarrow> message_refs md p) @ declared_refs pk es
      | FileElement_serviceDecl sd \<Rightarrow>
          concat (map (service_element_refs pk) (serviceElements sd)) @ declared_refs pk es
      | _ \<Rightarrow> declared_refs pk es)"

fun run_refs :: "string option \<Rightarrow> source_file list \<Rightarrow> ref list" where
  "run_refs pk [] = []"
| "run_refs pk (f # fs) =
     declared_refs pk (fileElements (snd (snd f))) @
     run_refs (package_after pk (fileElements (snd (snd f)))) fs"

definition recorded :: "ref list \<Rightarrow> graph \<Rightarrow> bool" where
  "recorded refs g =
     list_all (\<lambda>r. plain (snd (fst r)) \<and> plain (fst (snd r)) \<and> \<not> snd (snd r) \<longrightarrow>
                  (fst r, (fst (fst r), fst (snd r))) \<in> edges g) refs"






definition ex_oneof_symbol_file :: File where
  "ex_oneof_symbol_file =
     File None None
       [FileElement_packageDecl (PackageDecl ''p''),
        FileElement_messageDecl
          (MessageDecl ''A''
             [MessageElement_oneofDecl
                (OneofDecl ''choice''
                   [OneofElement_oneofFieldDecl (OneofFieldDecl ''B'' ''b'' ''1'' None)])]),
        FileElement_messageDecl (MessageDecl ''B'' []),
        FileElement_serviceDecl
          (ServiceDecl ''S''
             [ServiceElement_methodDecl
                (MethodDecl ''Get'' (MessageType False ''A'') (MessageType False ''A'')
                   (Some [MethodElement_optionDecl (OptionDecl ''(t)'' ''true'')]))])]"

section \<open>Basic facts\<close>

lemma gbind_ret [simp]: "gbind (ret a) f = f a"
  by (simp add: gbind_def ret_def fun_eq_iff)

lemma gbind_raise [simp]: "gbind (raise e) f = raise e"
  by (simp add: gbind_def raise_def fun_eq_iff)

lemma split_dot_unqualified: "CHR ''.'' \<notin> set t \<Longrightarrow> split_dot t = [t]"
  by (induction t) auto

section \<open>Scalar type names\<close>

lemma create_usage_node_body_scalar:
  "last (split_dot type_name) \<in> set scalar_types \<Longrightarrow>
   create_usage_node_body self_call type_name usage_parent knd = ret None"
  by (simp add: create_usage_node_body_def Let_def)

lemma create_usage_node_depth_scalar:
  "last (split_dot type_name) \<in> set scalar_types \<Longrightarrow>
   create_usage_node_depth d type_name usage_parent knd = ret None"
  by (cases d) (simp_all add: create_usage_node_body_scalar)

text \<open>
  C9. For a type name whose last dotted segment is a builtin scalar keyword, symbol
  resolution returns no symbol and leaves the modifier as it was: no graph symbol is
  created and no edge is appended to the enclosing symbol, in every phase.
\<close>

theorem scalar_type_name_creates_nothing:
  "last (split_dot type_name) \<in> set scalar_types \<Longrightarrow>
   create_usage_node_from_type_name type_name usage_parent knd s = (Inr None, s)"
  by (simp add: create_usage_node_from_type_name_def create_usage_node_depth_scalar ret_def)

theorem scalar_type_name_creates_nothing_witness:
  "last (split_dot ''foo.Bar.int32'') \<in> set scalar_types \<and>
   create_usage_node_from_type_name ''foo.Bar.int32'' (Some (''p'', ''A'')) None (init None)
     = (Inr None, init None)"
proof -
  have h: "last (split_dot ''foo.Bar.int32'') \<in> set scalar_types"
    by (simp add: scalar_types_def)
  show ?thesis
    using h scalar_type_name_creates_nothing [OF h, of "Some (''p'', ''A'')" None "init None"]
    by simp
qed

section \<open>Propagation\<close>

lemma map_of_set_should_render:
  "map_of (set_should_render c b g) k =
     (if k = c then map_option (\<lambda>n. n\<lparr>should_render := b\<rparr>) (map_of g c) else map_of g k)"
  by (simp add: set_should_render_def map_of_map_entry split: option.splits)








lemma map_fst_skeleton: "map fst (skeleton g) = map fst g"
  unfolding skeleton_def by (induction g) simp_all

lemma skeleton_keys:
  assumes "skeleton g' = skeleton g"
  shows "map fst g' = map fst g"
  using map_fst_skeleton[of g'] map_fst_skeleton[of g] assms by simp

lemma alive_set_should_render:
  "alive (set_should_render c True g) k \<longleftrightarrow> alive g k \<or> (k = c \<and> map_of g c \<noteq> None)"
  by (auto simp: alive_def map_of_set_should_render split: option.splits)



lemma each_mono:
  "alive g k \<Longrightarrow> alive (update_should_render_state_each g cs) k"
  by (induction g cs rule: update_should_render_state_each.induct)
     (auto split: option.splits simp: alive_set_should_render)










lemma loop_Cons:
  "update_should_render_state_loop g (k # ks) =
     (case map_of g k of
        None \<Rightarrow> update_should_render_state_loop g ks
      | Some n \<Rightarrow> update_should_render_state_loop (loop_step g k n) ks)"
  by (simp add: loop_step_def Let_def split: option.splits)


lemma step_mono: "alive g x \<Longrightarrow> alive (loop_step g k n) x"
  by (auto simp: loop_step_def Let_def alive_set_should_render intro!: each_mono)






lemma loop_mono: "alive g x \<Longrightarrow> alive (update_should_render_state_loop g ks) x"
proof (induction ks arbitrary: g)
  case Nil
  then show ?case by simp
next
  case (Cons k ks)
  show ?case
  proof (cases "map_of g k")
    case None
    with Cons show ?thesis by (simp only: loop_Cons) simp
  next
    case (Some n)
    have "alive (loop_step g k n) x" using Cons.prems by (rule step_mono)
    then have "alive (update_should_render_state_loop (loop_step g k n) ks) x" by (rule Cons.IH)
    with Some show ?thesis by (simp only: loop_Cons) simp
  qed
qed














section \<open>Cycles\<close>




section \<open>What the tree walk keeps\<close>

lemma preservesI: "(\<And>s. P s \<Longrightarrow> P (snd (m s))) \<Longrightarrow> preserves P m"
  by (simp add: preserves_def)

lemma preservesD: "preserves P m \<Longrightarrow> P s \<Longrightarrow> P (snd (m s))"
  by (simp add: preserves_def)

lemma preserves_ret [simp]: "preserves P (ret a)"
  by (simp add: preserves_def ret_def)

lemma preserves_raise [simp]: "preserves P (raise e)"
  by (simp add: preserves_def raise_def)

lemma preserves_gbind_res:
  assumes m: "preserves P m"
    and f: "\<And>a s s'. P s \<Longrightarrow> m s = (Inr a, s') \<Longrightarrow> preserves P (f a)"
  shows "preserves P (gbind m f)"
proof (rule preservesI)
  fix s assume s: "P s"
  obtain r s' where ms: "m s = (r, s')" by (cases "m s")
  with preservesD[OF m s] have s': "P s'" by simp
  show "P (snd (gbind m f s))"
  proof (cases r)
    case (Inl e)
    with ms s' show ?thesis by (simp add: gbind_def)
  next
    case (Inr a)
    with ms have "m s = (Inr a, s')" by simp
    from f[OF s this] s' have "P (snd (f a s'))" by (rule preservesD)
    with ms Inr show ?thesis by (simp add: gbind_def)
  qed
qed

lemma preserves_gbind:
  "preserves P m \<Longrightarrow> (\<And>a. preserves P (f a)) \<Longrightarrow> preserves P (gbind m f)"
  by (rule preserves_gbind_res)

lemma preserves_map_gen:
  "(\<And>x. x \<in> set xs \<Longrightarrow> preserves P (f x)) \<Longrightarrow> preserves P (map_gen f xs)"
  by (induction xs) (auto intro!: preserves_gbind)

lemma preserves_reader: "(\<And>s. snd (m s) = s) \<Longrightarrow> preserves P m"
  by (simp add: preserves_def)

lemma preserves_get_package_name [simp]: "preserves P get_package_name"
  by (rule preserves_reader) (simp add: get_package_name_def split: option.splits)

lemma preserves_determine_node_state [simp]: "preserves P (determine_node_state k)"
  by (rule preserves_reader) (simp add: determine_node_state_def split: option.splits)

lemma preserves_generate_option_decl [simp]: "preserves P (generate_option_decl node)"
  by (rule preserves_reader) (simp add: generate_option_decl_def Let_def)

lemma preserves_generate_import_decl [simp]: "preserves P (generate_import_decl node)"
  by (rule preserves_reader) (simp add: generate_import_decl_def Let_def)

text \<open>The resolver keeps what its last step, \<open>find_or_create\<close>, keeps.\<close>

lemma preserves_resolve_intermediate:
  assumes "\<And>t par k. preserves P (self_call t par k)"
  shows "preserves P (resolve_intermediate self_call p k ms par)"
  using assms by (induction ms arbitrary: par) (auto intro!: preserves_gbind)

lemma preserves_create_usage_node_body:
  assumes fc: "\<And>p m par k. preserves P (find_or_create p m par k)"
    and self: "\<And>t par k. preserves P (self_call t par k)"
  shows "preserves P (create_usage_node_body self_call t par k)"
  unfolding create_usage_node_body_def Let_def
  by (auto intro!: preserves_gbind preserves_resolve_intermediate fc self)

lemma preserves_create_usage_node_depth:
  assumes fc: "\<And>p m par k. preserves P (find_or_create p m par k)"
  shows "preserves P (create_usage_node_depth d t par k)"
proof (induction d arbitrary: t par k)
  case 0
  show ?case by (simp add: preserves_create_usage_node_body[OF fc])
next
  case (Suc d)
  show ?case by (simp add: preserves_create_usage_node_body[OF fc Suc])
qed

lemma preserves_create_usage_node:
  assumes fc: "\<And>p m par k. preserves P (find_or_create p m par k)"
  shows "preserves P (create_usage_node_from_type_name t par k)"
  unfolding create_usage_node_from_type_name_def
  by (rule preserves_create_usage_node_depth[OF fc])

lemma preserves_generate_enum_element [simp]: "preserves P (generate_enum_element e indent)"
  by (cases e) (auto intro!: preserves_gbind)

lemma preserves_generate_enum_decl:
  assumes "\<And>p m par k. preserves P (find_or_create p m par k)"
  shows "preserves P (generate_enum_decl node indent)"
  unfolding generate_enum_decl_def
  by (auto intro!: preserves_gbind preserves_map_gen preserves_create_usage_node assms)

lemma preserves_generate_field_decl:
  assumes "\<And>p m par k. preserves P (find_or_create p m par k)"
  shows "preserves P (generate_field_decl node par)"
  unfolding generate_field_decl_def
  by (auto intro!: preserves_gbind preserves_create_usage_node assms)

lemma preserves_generate_map_field_decl:
  assumes "\<And>p m par k. preserves P (find_or_create p m par k)"
  shows "preserves P (generate_map_field_decl node par)"
  unfolding generate_map_field_decl_def generate_map_type_def
  by (auto intro!: preserves_gbind preserves_create_usage_node assms)

lemma preserves_generate_message_type:
  assumes "\<And>p m par k. preserves P (find_or_create p m par k)"
  shows "preserves P (generate_message_type node par)"
  unfolding generate_message_type_def
  by (auto intro!: preserves_gbind preserves_create_usage_node assms)

lemma preserves_message_level:
  assumes fc: "\<And>p m par k. preserves P (find_or_create p m par k)"
  shows "\<And>indent par. preserves P (generate_message_element me indent par)"
    and "\<And>indent par. preserves P (generate_group_decl gd indent par)"
    and "\<And>indent par. preserves P (generate_oneof_decl od indent par)"
    and "\<And>indent par. preserves P (generate_oneof_element oe indent par)"
    and "\<And>indent par. preserves P (generate_oneof_group_decl ogd indent par)"
    and "\<And>indent par. preserves P (generate_message_decl md indent par)"
    and "\<And>indent. preserves P (generate_extension_decl ed indent)"
    and "\<And>indent par. preserves P (generate_extension_element ee indent par)"
proof (induction me and gd and od and oe and ogd and md and ed and ee)
  case (MessageElement_fieldDecl x)
  show ?case by (auto intro!: preserves_gbind preserves_generate_field_decl fc)
next
  case (MessageElement_groupDecl x)
  then show ?case by (auto intro!: preserves_gbind)
next
  case (MessageElement_oneofDecl x)
  then show ?case by (auto intro!: preserves_gbind)
next
  case (MessageElement_optionDecl x)
  show ?case by (auto intro!: preserves_gbind)
next
  case (MessageElement_extensionRangeDecl x)
  show ?case by simp
next
  case (MessageElement_messageReservedDecl x)
  show ?case by simp
next
  case (MessageElement_messageDecl x)
  then show ?case by (auto intro!: preserves_gbind)
next
  case (MessageElement_enumDecl x)
  show ?case by (auto intro!: preserves_gbind preserves_generate_enum_decl fc)
next
  case (MessageElement_extensionDecl x)
  then show ?case by (auto intro!: preserves_gbind)
next
  case (MessageElement_mapFieldDecl x)
  show ?case by (auto intro!: preserves_gbind preserves_generate_map_field_decl fc)
next
  case MessageElement_emptyDecl
  show ?case by simp
next
  case (GroupDecl x1 x2 x3 x4 x5)
  then show ?case by (auto intro!: preserves_gbind preserves_map_gen)
next
  case (OneofDecl x1 x2)
  then show ?case by (auto intro!: preserves_gbind preserves_map_gen)
next
  case (OneofElement_optionDecl x)
  show ?case by (auto intro!: preserves_gbind)
next
  case (OneofElement_oneofFieldDecl x)
  show ?case by simp
next
  case (OneofElement_oneofGroupDecl x)
  then show ?case by (auto intro!: preserves_gbind)
next
  case (OneofGroupDecl x1 x2 x3 x4)
  then show ?case by (auto intro!: preserves_gbind preserves_map_gen)
next
  case (MessageDecl x1 x2)
  then show ?case
    by (auto intro!: preserves_gbind preserves_map_gen preserves_create_usage_node fc)
next
  case (ExtensionDecl x1 x2)
  then show ?case
    by (auto intro!: preserves_gbind preserves_map_gen preserves_create_usage_node fc)
next
  case (ExtensionElement_fieldDecl x)
  show ?case by (auto intro!: preserves_gbind preserves_generate_field_decl fc)
next
  case (ExtensionElement_groupDecl x)
  show ?case by simp
qed

lemma returnsD: "returns Q m \<Longrightarrow> m s = (Inr a, s') \<Longrightarrow> Q a"
  by (auto simp: returns_def)

lemma returns_ret: "Q a \<Longrightarrow> returns Q (ret a)"
  by (simp add: returns_def ret_def)

lemma returns_raise [simp]: "returns Q (raise e)"
  by (simp add: returns_def raise_def)

lemma returns_gbind: "(\<And>a. returns Q (f a)) \<Longrightarrow> returns Q (gbind m f)"
  by (auto simp: returns_def gbind_def split: prod.splits sum.splits)

lemma returns_find_or_create:
  "returns (\<lambda>r. r = Some (p, m)) (find_or_create p m par k)"
  by (auto simp: returns_def find_or_create_def Let_def split: if_splits option.splits)

lemma split_dot_not_Nil [simp]: "split_dot t \<noteq> []"
  by (induction t) (auto split: list.splits)

lemma split_dot_single: "length (split_dot t) \<le> 1 \<Longrightarrow> split_dot t = [t]"
proof (induction t)
  case Nil
  then show ?case by simp
next
  case (Cons c cs)
  show ?case
  proof (cases "c = CHR ''.''")
    case True
    with Cons.prems have "split_dot cs = []" by simp
    then show ?thesis by simp
  next
    case False
    obtain p ps where ps: "split_dot cs = p # ps" by (cases "split_dot cs") simp_all
    with Cons.prems False have "ps = []" by simp
    with ps Cons.IH have "p = cs" by simp
    with ps \<open>ps = []\<close> False show ?thesis by simp
  qed
qed

lemma returns_if:
  "(c \<Longrightarrow> returns Q a) \<Longrightarrow> (\<not> c \<Longrightarrow> returns Q b) \<Longrightarrow> returns Q (if c then a else b)"
  by simp

lemma returns_create_usage_node_body:
  "returns (names_part t) (create_usage_node_body self_call t par k)"
proof -
  have fc: "returns (names_part t) (find_or_create p m par' k)" if "m \<in> set (split_dot t)" for p m par'
  proof -
    have "names_part t a" if "find_or_create p m par' k s = (Inr a, s')" for s a s'
      using returnsD[OF returns_find_or_create that] \<open>m \<in> set (split_dot t)\<close>
      by (simp add: names_part_def)
    then show ?thesis by (auto simp: returns_def)
  qed
  show ?thesis
    unfolding create_usage_node_body_def Let_def
  proof (intro returns_if returns_gbind returns_raise, goal_cases)
    case 1
    show ?case by (simp add: returns_ret names_part_def)
  next
    case (2 p up)
    have "last (filter (\<lambda>x. isupper (hd x)) (split_dot t)) \<in> set (split_dot t)"
      using last_in_set[OF 2(4)] by auto
    then show ?case by (rule fc)
  next
    case (3 p)
    then have "split_dot t = [t]" by (intro split_dot_single) simp
    then show ?case by (intro fc) simp
  qed
qed

lemma returns_create_usage_node_depth:
  "returns (names_part t) (create_usage_node_depth d t par k)"
  by (cases d) (simp_all add: returns_create_usage_node_body)

lemma returns_create_usage_node:
  "returns (names_part t) (create_usage_node_from_type_name t par k)"
  unfolding create_usage_node_from_type_name_def by (rule returns_create_usage_node_depth)

lemma preserves_assign_None [simp]: "preserves P (assign_should_render None b)"
  by (rule preserves_reader) (simp add: assign_should_render_def)

lemma preserves_generate_method_element [simp]: "preserves P (generate_method_element e indent)"
  by (cases e) (auto intro!: preserves_gbind)

lemma preserves_generate_method_decl:
  assumes fc: "\<And>p m par k. preserves P (find_or_create p m par k)"
    and asg: "\<And>key b. snd key \<in> set (split_dot (methodName node)) \<Longrightarrow>
                preserves P (assign_should_render (Some key) b)"
  shows "preserves P (generate_method_decl node indent)"
  unfolding generate_method_decl_def
proof (rule preserves_gbind_res)
  show "preserves P (create_usage_node_from_type_name (methodName node) None (Some Rpc))"
    by (rule preserves_create_usage_node[OF fc])
next
  fix usage_node s s'
  assume "create_usage_node_from_type_name (methodName node) None (Some Rpc) s = (Inr usage_node, s')"
  from returnsD[OF returns_create_usage_node this]
  have "preserves P (assign_should_render usage_node b)" for b
    by (cases usage_node) (auto intro: asg simp: names_part_def)
  then show "preserves P
     (gbind (generate_message_type (inputType node) usage_node) (\<lambda>input_type.
      gbind (generate_message_type (outputType node) usage_node) (\<lambda>output_type.
      gbind (case methodElements node of
               None \<Rightarrow> ret ('';\<newline>'', False)
             | Some elements \<Rightarrow>
                 gbind (map_gen (\<lambda>child. generate_method_element child (indent + 1)) elements)
                   (\<lambda>rs.
                 ret (''{'' @ (if elements \<noteq> [] then ''\<newline>'' else []) @ concat (map fst rs) @
                      spaces indent @ ''}\<newline>'', list_ex snd rs))) (\<lambda>body.
      gbind (assign_should_render usage_node (snd body)) (\<lambda>u.
      ret (''rpc '' @ methodName node @ input_type @ '' '' @ ''returns '' @ output_type @
           fst body, snd body))))))"
    by (auto intro!: preserves_gbind preserves_generate_message_type preserves_map_gen fc
             split: option.splits)
qed

lemma preserves_generate_service_element:
  assumes fc: "\<And>p m par k. preserves P (find_or_create p m par k)"
    and asg: "\<And>m key b. e = ServiceElement_methodDecl m \<Longrightarrow>
                snd key \<in> set (split_dot (methodName m)) \<Longrightarrow>
                preserves P (assign_should_render (Some key) b)"
  shows "preserves P (generate_service_element e indent)"
  by (cases e) (auto intro!: preserves_gbind preserves_generate_method_decl fc asg)

lemma preserves_generate_service_decl:
  assumes fc: "\<And>p m par k. preserves P (find_or_create p m par k)"
    and asg: "\<And>key b. snd key \<in> set (concat (map split_dot (service_method_names node))) \<Longrightarrow>
                preserves P (assign_should_render (Some key) b)"
  shows "preserves P (generate_service_decl node indent)"
  unfolding generate_service_decl_def
proof (intro preserves_gbind preserves_map_gen preserves_generate_service_element fc preserves_ret)
  fix x m and key :: key and b
  assume x: "x \<in> set (serviceElements node)" "x = ServiceElement_methodDecl m"
    and k: "snd key \<in> set (split_dot (methodName m))"
  from x have "methodName m \<in> set (service_method_names node)"
    by (force simp: service_method_names_def)
  with k show "preserves P (assign_should_render (Some key) b)"
    by (intro asg) auto
qed

lemma preserves_generate_file_element:
  assumes fc: "\<And>p m par k. preserves P (find_or_create p m par k)"
    and asg: "\<And>sd key b. e = FileElement_serviceDecl sd \<Longrightarrow>
                snd key \<in> set (concat (map split_dot (service_method_names sd))) \<Longrightarrow>
                preserves P (assign_should_render (Some key) b)"
    and pk: "\<And>pd. e = FileElement_packageDecl pd \<Longrightarrow> preserves P (generate_package_decl pd)"
  shows "preserves P (generate_file_element e)"
  by (cases e)
     (auto intro!: preserves_gbind preserves_message_level preserves_generate_enum_decl
        preserves_generate_service_decl fc asg pk)

lemma preserves_generate_file:
  assumes fc: "\<And>p m par k. preserves P (find_or_create p m par k)"
    and asg: "\<And>key b. snd key \<in> set (method_symbol_names tree) \<Longrightarrow>
                preserves P (assign_should_render (Some key) b)"
    and pk: "\<And>pd. pd \<in> set (package_decls tree) \<Longrightarrow> preserves P (generate_package_decl pd)"
  shows "preserves P (generate_file' tree)"
  unfolding generate_file'_def
proof (intro preserves_gbind preserves_map_gen preserves_generate_file_element fc preserves_ret)
  fix x sd and key :: key and b
  assume x: "x \<in> set (fileElements tree)" "x = FileElement_serviceDecl sd"
    and k: "snd key \<in> set (concat (map split_dot (service_method_names sd)))"
  from x have "set (service_method_names sd) \<subseteq> set (method_names tree)"
    by (force simp: method_names_def)
  with k show "preserves P (assign_should_render (Some key) b)"
    by (intro asg) (auto simp: method_symbol_names_def)
next
  fix x pd
  assume "x \<in> set (fileElements tree)" "x = FileElement_packageDecl pd"
  then have "pd \<in> set (package_decls tree)" by (force simp: package_decls_def)
  then show "preserves P (generate_package_decl pd)" by (rule pk)
qed

lemma map_of_set_kind:
  "map_of (set_kind c kd g) k =
     (if k = c then map_option (\<lambda>n. n\<lparr>kind := kd\<rparr>) (map_of g c) else map_of g k)"
  by (simp add: set_kind_def map_of_map_entry split: option.splits)

lemma map_of_add_child:
  "map_of (add_child p c g) k =
     (if k = p then map_option (\<lambda>n. n\<lparr>children := children n @ [c]\<rparr>) (map_of g p) else map_of g k)"
  by (simp add: add_child_def map_of_map_entry split: option.splits)

lemma map_of_snoc:
  "map_of (g @ [(c, n)]) k =
     (case map_of g k of Some x \<Rightarrow> Some x | None \<Rightarrow> if k = c then Some n else None)"
  by (induction g) auto

lemma alive_set_kind [simp]: "alive (set_kind c kd g) k = alive g k"
  by (auto simp: alive_def map_of_set_kind split: option.splits)

lemma alive_add_child [simp]: "alive (add_child p c g) k = alive g k"
  by (auto simp: alive_def map_of_add_child split: option.splits)

lemma alive_snoc_dead [simp]:
  "\<not> should_render n \<Longrightarrow> alive (g @ [(c, n)]) k = alive g k"
  by (auto simp: alive_def map_of_snoc split: option.splits if_splits)

lemma alive_find_or_create:
  "alive (usage_nodes (snd (find_or_create p m par kd s))) k = alive (usage_nodes s) k"
  by (simp add: find_or_create_def Let_def split: option.splits)

lemma alive_assign_other:
  "k \<noteq> c \<Longrightarrow>
   alive (usage_nodes (snd (assign_should_render (Some c) b s))) k = alive (usage_nodes s) k"
  by (simp add: assign_should_render_def alive_def map_of_set_should_render)

lemma preserves_alive_find_or_create:
  "preserves (\<lambda>s. alive (usage_nodes s) k = b) (find_or_create p m par kd)"
  by (simp add: preserves_def alive_find_or_create)

lemma preserves_alive_generate_file:
  assumes "snd k \<notin> set (method_symbol_names tree)"
  shows "preserves (\<lambda>s. alive (usage_nodes s) k = b) (generate_file' tree)"
proof (rule preserves_generate_file)
  show "preserves (\<lambda>s. alive (usage_nodes s) k = b) (find_or_create p m par kd)" for p m par kd
    by (rule preserves_alive_find_or_create)
next
  fix key :: key and b'
  assume "snd key \<in> set (method_symbol_names tree)"
  with assms have "k \<noteq> key" by auto
  then show "preserves (\<lambda>s. alive (usage_nodes s) k = b) (assign_should_render (Some key) b')"
    by (simp add: preserves_def alive_assign_other)
next
  fix pd
  show "preserves (\<lambda>s. alive (usage_nodes s) k = b) (generate_package_decl pd)"
    by (simp add: preserves_def generate_package_decl_def)
qed

lemma preserves_alive_true_create_usage_node:
  "preserves (\<lambda>s. alive (usage_nodes s) k) (create_usage_node_from_type_name t par kd)"
  by (rule preserves_create_usage_node) (simp add: preserves_def alive_find_or_create)

lemma find_or_create_other_fields:
  "package_name (snd (find_or_create p m par kd s)) = package_name s \<and>
   rendered_files (snd (find_or_create p m par kd s)) = rendered_files s \<and>
   include_rpc_with_option_names (snd (find_or_create p m par kd s)) = include_rpc_with_option_names s \<and>
   usage_graph_creation_phase (snd (find_or_create p m par kd s)) = usage_graph_creation_phase s"
  by (simp add: find_or_create_def Let_def split: option.splits)

lemma assign_other_fields:
  "package_name (snd (assign_should_render k b s)) = package_name s \<and>
   rendered_files (snd (assign_should_render k b s)) = rendered_files s \<and>
   include_rpc_with_option_names (snd (assign_should_render k b s)) = include_rpc_with_option_names s \<and>
   usage_graph_creation_phase (snd (assign_should_render k b s)) = usage_graph_creation_phase s"
  by (simp add: assign_should_render_def split: option.splits)

lemma preserves_package_name_generate_file:
  assumes "package_decls tree = []"
  shows "preserves (\<lambda>s. package_name s = v) (generate_file' tree)"
  by (rule preserves_generate_file)
     (simp_all add: preserves_def find_or_create_other_fields assign_other_fields assms)

lemma preserves_rendered_files_generate_file:
  "preserves (\<lambda>s. rendered_files s = v) (generate_file' tree)"
  by (rule preserves_generate_file)
     (simp_all add: preserves_def find_or_create_other_fields assign_other_fields
        generate_package_decl_def)

lemma preserves_include_generate_file:
  "preserves (\<lambda>s. include_rpc_with_option_names s = v) (generate_file' tree)"
  by (rule preserves_generate_file)
     (simp_all add: preserves_def find_or_create_other_fields assign_other_fields
        generate_package_decl_def)

lemma create_usage_node_unqualified:
  assumes "CHR ''.'' \<notin> set t" "t \<notin> set scalar_types"
  shows "create_usage_node_from_type_name t par kd =
         gbind get_package_name (\<lambda>p. find_or_create p t par kd)"
proof -
  have sp: "split_dot t = [t]" using assms(1) by (rule split_dot_unqualified)
  have "create_usage_node_body self_call t par kd =
        gbind get_package_name (\<lambda>p. find_or_create p t par kd)" for self_call
    using assms(2) by (simp add: create_usage_node_body_def sp)
  then have "create_usage_node_depth d t par kd =
        gbind get_package_name (\<lambda>p. find_or_create p t par kd)" for d
    by (cases d) simp_all
  then show ?thesis
    unfolding create_usage_node_from_type_name_def .
qed

lemma map_fst_map_entry [simp]: "map fst (AList.map_entry k f g) = map fst g"
  by (induction g) auto




















lemma map_fst_add_child [simp]: "map fst (add_child q c g) = map fst g"
  by (simp add: add_child_def)

lemma map_fst_set_kind [simp]: "map fst (set_kind c k g) = map fst g"
  by (simp add: set_kind_def)

lemma kind_add_child [simp]:
  "map_option kind (map_of (add_child q c g) k) = map_option kind (map_of g k)"
  by (cases "map_of g q") (auto simp: map_of_add_child)






section \<open>The alive flag during the graph build\<close>




section \<open>The active package\<close>

text \<open>
  C10. The package an unqualified type reference is resolved against is the attribute
  \<open>package_name\<close> of the modifier, which only a package declaration sets: a pass over a
  file without a package declaration (graph build or render) leaves it as the previous
  file left it; a package declaration sets it to the declared name; an unqualified
  reference that is no scalar keyword is found or created under the package held at that
  moment; and while no package declaration has been visited, such a reference raises
  \<open>AttributeError\<close> and changes nothing.
\<close>

theorem unqualified_reference_uses_last_package:
  "(package_decls tree = [] \<longrightarrow>
      package_name (snd (create_usage_graph tree False s)) = package_name s \<and>
      package_name (snd (regenerate_file tree s)) = package_name s) \<and>
   package_name (snd (generate_package_decl pd s)) = Some (packageName pd) \<and>
   (CHR ''.'' \<notin> set t \<and> t \<notin> set scalar_types \<and> package_name s = Some p \<longrightarrow>
      create_usage_node_from_type_name t par kd s = find_or_create p t par kd s) \<and>
   (CHR ''.'' \<notin> set t \<and> t \<notin> set scalar_types \<and> package_name s = None \<longrightarrow>
      create_usage_node_from_type_name t par kd s = (Inl AttributeError, s))"
proof (intro conjI impI)
  assume np: "package_decls tree = []"
  let ?s1 = "s\<lparr>usage_graph_creation_phase := True\<rparr>"
  have "package_name ?s1 = package_name s" by simp
  from preservesD[OF preserves_package_name_generate_file[OF np] this]
  have "package_name (snd (generate_file' tree ?s1)) = package_name s" .
  then show "package_name (snd (create_usage_graph tree False s)) = package_name s"
    by (auto simp: create_usage_graph_def Let_def split: prod.splits sum.splits)
  have "package_name s = package_name s" by simp
  from preservesD[OF preserves_package_name_generate_file[OF np] this]
  show "package_name (snd (regenerate_file tree s)) = package_name s"
    by (simp add: regenerate_file_def)
next
  show "package_name (snd (generate_package_decl pd s)) = Some (packageName pd)"
    by (simp add: generate_package_decl_def)
next
  assume "CHR ''.'' \<notin> set t \<and> t \<notin> set scalar_types \<and> package_name s = Some p"
  then show "create_usage_node_from_type_name t par kd s = find_or_create p t par kd s"
    by (simp add: create_usage_node_unqualified gbind_def get_package_name_def)
next
  assume "CHR ''.'' \<notin> set t \<and> t \<notin> set scalar_types \<and> package_name s = None"
  then show "create_usage_node_from_type_name t par kd s = (Inl AttributeError, s)"
    by (simp add: create_usage_node_unqualified gbind_def get_package_name_def)
qed

theorem unqualified_reference_uses_last_package_witness:
  "package_decls ex_no_package_file = [] \<and>
   package_name (snd (create_usage_graph ex_no_package_file False ex_tracked_built)) = Some ''p'' \<and>
   (''p'', ''X'') \<in> set (map fst (usage_nodes
      (snd (create_usage_graph ex_no_package_file False ex_tracked_built)))) \<and>
   create_usage_node_from_type_name ''X'' None None (init None) = (Inl AttributeError, init None) \<and>
   fst (create_usage_graph ex_no_package_file False (init None)) = Inl AttributeError"
proof -
  have h: "package_decls ex_no_package_file = []" by code_simp
  have p: "package_name ex_tracked_built = Some ''p''" by code_simp
  have x: "(''p'', ''X'') \<in> set (map fst (usage_nodes
      (snd (create_usage_graph ex_no_package_file False ex_tracked_built))))" by code_simp
  have e: "fst (create_usage_graph ex_no_package_file False (init None)) = Inl AttributeError"
    by code_simp
  have n: "package_name (init None) = None" by (simp add: init_def)
  have s: "''X'' \<notin> set scalar_types" by (simp add: scalar_types_def)
  show ?thesis
    using h p x e n s
      unqualified_reference_uses_last_package
        [of ex_no_package_file ex_tracked_built "PackageDecl ''p''" "''X''" "''p''" None None]
      unqualified_reference_uses_last_package
        [of ex_no_package_file "init None" "PackageDecl ''p''" "''X''" "''p''" None None]
    by simp
qed

section \<open>One symbol per package and name\<close>






section \<open>The flags of methods and services\<close>

lemma gbind_Inr:
  assumes "gbind m f s = (Inr b, s')"
  obtains a s1 where "m s = (Inr a, s1)" and "f a s1 = (Inr b, s')"
  using assms by (auto simp: gbind_def split: prod.splits sum.splits)

lemma include_create_usage_node:
  "include_rpc_with_option_names (snd (create_usage_node_from_type_name t par kd s)) =
   include_rpc_with_option_names s"
proof -
  have "preserves (\<lambda>s'. include_rpc_with_option_names s' = include_rpc_with_option_names s)
          (create_usage_node_from_type_name t par kd)"
    by (rule preserves_create_usage_node) (simp add: preserves_def find_or_create_other_fields)
  from preservesD[OF this] show ?thesis by simp
qed

lemma include_generate_message_type:
  assumes "generate_message_type node par s = (r, s')"
  shows "include_rpc_with_option_names s' = include_rpc_with_option_names s"
proof -
  have "preserves (\<lambda>s'. include_rpc_with_option_names s' = include_rpc_with_option_names s)
          (generate_message_type node par)"
    by (rule preserves_generate_message_type) (simp add: preserves_def find_or_create_other_fields)
  from preservesD[OF this, of s] assms show ?thesis by simp
qed

lemma method_elements_flags:
  "\<exists>rs. map_gen (\<lambda>child. generate_method_element child i) elements s = (Inr rs, s) \<and>
        list_ex snd rs =
          list_ex (\<lambda>e. case e of MethodElement_optionDecl od \<Rightarrow>
                                    option_matches (include_rpc_with_option_names s) od
                                | MethodElement_emptyDecl \<Rightarrow> False) elements"
proof (induction elements)
  case Nil
  show ?case by (simp add: ret_def)
next
  case (Cons e elements)
  then obtain rs where rs: "map_gen (\<lambda>child. generate_method_element child i) elements s = (Inr rs, s)"
    and fl: "list_ex snd rs =
          list_ex (\<lambda>e. case e of MethodElement_optionDecl od \<Rightarrow>
                                    option_matches (include_rpc_with_option_names s) od
                                | MethodElement_emptyDecl \<Rightarrow> False) elements"
    by blast
  show ?case
    using rs fl
    by (cases e)
       (simp_all add: gbind_def ret_def generate_option_decl_def Let_def option_matches_def)
qed

lemma method_flag:
  assumes "generate_method_decl node indent s = (Inr r, s')"
  shows "snd r = method_retained (include_rpc_with_option_names s) node"
    and "include_rpc_with_option_names s' = include_rpc_with_option_names s"
proof -
  from assms obtain u s1 where
    1: "create_usage_node_from_type_name (methodName node) None (Some Rpc) s = (Inr u, s1)"
    and r1: "gbind (generate_message_type (inputType node) u) (\<lambda>input_type.
     gbind (generate_message_type (outputType node) u) (\<lambda>output_type.
     gbind (case methodElements node of
              None \<Rightarrow> ret ('';\<newline>'', False)
            | Some elements \<Rightarrow>
                gbind (map_gen (\<lambda>child. generate_method_element child (indent + 1)) elements)
                  (\<lambda>rs.
                ret (''{'' @ (if elements \<noteq> [] then ''\<newline>'' else []) @ concat (map fst rs) @
                     spaces indent @ ''}\<newline>'', list_ex snd rs))) (\<lambda>body.
     gbind (assign_should_render u (snd body)) (\<lambda>u.
     ret (''rpc '' @ methodName node @ input_type @ '' '' @ ''returns '' @ output_type @
          fst body, snd body))))) s1 = (Inr r, s')"
    unfolding generate_method_decl_def by (rule gbind_Inr)
  from r1 obtain it s2 where
    2: "generate_message_type (inputType node) u s1 = (Inr it, s2)"
    and r2: "gbind (generate_message_type (outputType node) u) (\<lambda>output_type.
     gbind (case methodElements node of
              None \<Rightarrow> ret ('';\<newline>'', False)
            | Some elements \<Rightarrow>
                gbind (map_gen (\<lambda>child. generate_method_element child (indent + 1)) elements)
                  (\<lambda>rs.
                ret (''{'' @ (if elements \<noteq> [] then ''\<newline>'' else []) @ concat (map fst rs) @
                     spaces indent @ ''}\<newline>'', list_ex snd rs))) (\<lambda>body.
     gbind (assign_should_render u (snd body)) (\<lambda>u.
     ret (''rpc '' @ methodName node @ it @ '' '' @ ''returns '' @ output_type @
          fst body, snd body)))) s2 = (Inr r, s')"
    by (rule gbind_Inr)
  from r2 obtain ot s3 where
    3: "generate_message_type (outputType node) u s2 = (Inr ot, s3)"
    and r3: "gbind (case methodElements node of
              None \<Rightarrow> ret ('';\<newline>'', False)
            | Some elements \<Rightarrow>
                gbind (map_gen (\<lambda>child. generate_method_element child (indent + 1)) elements)
                  (\<lambda>rs.
                ret (''{'' @ (if elements \<noteq> [] then ''\<newline>'' else []) @ concat (map fst rs) @
                     spaces indent @ ''}\<newline>'', list_ex snd rs))) (\<lambda>body.
     gbind (assign_should_render u (snd body)) (\<lambda>u.
     ret (''rpc '' @ methodName node @ it @ '' '' @ ''returns '' @ ot @
          fst body, snd body))) s3 = (Inr r, s')"
    by (rule gbind_Inr)
  from r3 obtain body s4 where
    4: "(case methodElements node of
              None \<Rightarrow> ret ('';\<newline>'', False)
            | Some elements \<Rightarrow>
                gbind (map_gen (\<lambda>child. generate_method_element child (indent + 1)) elements)
                  (\<lambda>rs.
                ret (''{'' @ (if elements \<noteq> [] then ''\<newline>'' else []) @ concat (map fst rs) @
                     spaces indent @ ''}\<newline>'', list_ex snd rs))) s3 = (Inr body, s4)"
    and r4: "gbind (assign_should_render u (snd body)) (\<lambda>u.
     ret (''rpc '' @ methodName node @ it @ '' '' @ ''returns '' @ ot @
          fst body, snd body)) s4 = (Inr r, s')"
    by (rule gbind_Inr)
  from r4 obtain x s5 where
    5: "assign_should_render u (snd body) s4 = (Inr x, s5)"
    and r5: "ret (''rpc '' @ methodName node @ it @ '' '' @ ''returns '' @ ot @
          fst body, snd body) s5 = (Inr r, s')"
    by (rule gbind_Inr)
  have i1: "include_rpc_with_option_names s1 = include_rpc_with_option_names s"
    using include_create_usage_node[of "methodName node" None "Some Rpc" s] 1 by simp
  have i2: "include_rpc_with_option_names s2 = include_rpc_with_option_names s1"
    using 2 by (rule include_generate_message_type)
  have i3: "include_rpc_with_option_names s3 = include_rpc_with_option_names s2"
    using 3 by (rule include_generate_message_type)
  have b: "s4 = s3 \<and> snd body = method_retained (include_rpc_with_option_names s3) node"
  proof (cases "methodElements node")
    case None
    with 4 show ?thesis by (auto simp: ret_def method_retained_def)
  next
    case (Some elements)
    from method_elements_flags[of "indent + 1" elements s3] obtain rs where
      "map_gen (\<lambda>child. generate_method_element child (indent + 1)) elements s3 = (Inr rs, s3)"
      "list_ex snd rs =
          list_ex (\<lambda>e. case e of MethodElement_optionDecl od \<Rightarrow>
                                    option_matches (include_rpc_with_option_names s3) od
                                | MethodElement_emptyDecl \<Rightarrow> False) elements"
      by blast
    with 4 Some show ?thesis by (auto simp: gbind_def ret_def method_retained_def)
  qed
  have i5: "include_rpc_with_option_names s5 = include_rpc_with_option_names s4"
    using assign_other_fields[of u "snd body" s4] 5 by simp
  from r5 have e: "snd r = snd body" "s' = s5" by (auto simp: ret_def)
  show "snd r = method_retained (include_rpc_with_option_names s) node"
    using e b i1 i2 i3 by simp
  show "include_rpc_with_option_names s' = include_rpc_with_option_names s"
    using e b i1 i2 i3 i5 by simp
qed

lemma include_generate_option_decl:
  "snd (generate_option_decl od s) = s"
  by (simp add: generate_option_decl_def Let_def)

lemma service_elements_flags:
  assumes "map_gen (\<lambda>child. generate_service_element child i) elements s = (Inr rs, s')"
  shows "list_ex snd rs =
          list_ex (\<lambda>e. case e of ServiceElement_methodDecl m \<Rightarrow>
                                    method_retained (include_rpc_with_option_names s) m
                                | ServiceElement_optionDecl od \<Rightarrow> False
                                | ServiceElement_emptyDecl \<Rightarrow> False) elements \<and>
         include_rpc_with_option_names s' = include_rpc_with_option_names s"
  using assms
proof (induction elements arbitrary: s rs s')
  case Nil
  then show ?case by (auto simp: ret_def)
next
  case (Cons e elements)
  from Cons.prems obtain r s1 where
    1: "generate_service_element e i s = (Inr r, s1)"
    and r1: "gbind (map_gen (\<lambda>child. generate_service_element child i) elements)
               (\<lambda>rs. ret (r # rs)) s1 = (Inr rs, s')"
    by (auto elim: gbind_Inr)
  from r1 obtain rs' s2 where
    2: "map_gen (\<lambda>child. generate_service_element child i) elements s1 = (Inr rs', s2)"
    and r2: "ret (r # rs') s2 = (Inr rs, s')"
    by (rule gbind_Inr)
  from r2 have e2: "rs = r # rs'" "s' = s2" by (auto simp: ret_def)
  have h: "snd r = (case e of ServiceElement_methodDecl m \<Rightarrow>
                                    method_retained (include_rpc_with_option_names s) m
                                | ServiceElement_optionDecl od \<Rightarrow> False
                                | ServiceElement_emptyDecl \<Rightarrow> False) \<and>
           include_rpc_with_option_names s1 = include_rpc_with_option_names s"
  proof (cases e)
    case (ServiceElement_optionDecl od)
    with 1 show ?thesis
      by (auto simp: gbind_def ret_def generate_option_decl_def Let_def)
  next
    case (ServiceElement_methodDecl m)
    with 1 obtain rm where m: "generate_method_decl m i s = (Inr rm, s1)" and "snd r = snd rm"
      by (auto simp: gbind_def ret_def split: prod.splits sum.splits)
    with method_flag[OF m] ServiceElement_methodDecl show ?thesis by simp
  next
    case ServiceElement_emptyDecl
    with 1 show ?thesis by (auto simp: ret_def)
  qed
  from h have i: "include_rpc_with_option_names s1 = include_rpc_with_option_names s" by simp
  note ih = Cons.IH[OF 2, unfolded i]
  from h have f: "snd r = (case e of ServiceElement_methodDecl m \<Rightarrow>
                                    method_retained (include_rpc_with_option_names s) m
                                | ServiceElement_optionDecl od \<Rightarrow> False
                                | ServiceElement_emptyDecl \<Rightarrow> False)" by simp
  show ?case unfolding e2 using ih f by simp
qed

lemma service_flag:
  assumes "generate_service_decl node indent s = (Inr r, s')"
  shows "snd r = service_retained (include_rpc_with_option_names s) node"
    and "\<not> snd r \<Longrightarrow> fst r = spaces indent @ ''service '' @ serviceName node @ '' {\<newline>'' @
           spaces indent @ ''}\<newline>''"
proof -
  from assms obtain rs s1 where
    1: "map_gen (\<lambda>child. generate_service_element child (indent + 1)) (serviceElements node) s
          = (Inr rs, s1)"
    and r1: "ret (spaces indent @ ''service '' @ serviceName node @ '' '' @ ''{\<newline>'' @
          concat (map (\<lambda>r. if snd r then fst r else []) rs) @
          spaces indent @ ''}\<newline>'', list_ex snd rs) s1 = (Inr r, s')"
    unfolding generate_service_decl_def by (rule gbind_Inr)
  from r1 have r: "r = (spaces indent @ ''service '' @ serviceName node @ '' '' @ ''{\<newline>'' @
          concat (map (\<lambda>r. if snd r then fst r else []) rs) @
          spaces indent @ ''}\<newline>'', list_ex snd rs)"
    by (auto simp: ret_def)
  from service_elements_flags[OF 1] r
  show "snd r = service_retained (include_rpc_with_option_names s) node"
    by (simp add: service_retained_def)
  assume "\<not> snd r"
  with r have "\<forall>x\<in>set rs. \<not> snd x" by (simp add: list_ex_iff)
  then have "concat (map (\<lambda>r. if snd r then fst r else []) rs) = []"
    by (induction rs) auto
  with r show "fst r = spaces indent @ ''service '' @ serviceName node @ '' {\<newline>'' @
           spaces indent @ ''}\<newline>''"
    by simp
qed

lemma gbind_gate_dead:
  assumes "fst (gbind m (\<lambda>r. ret (if snd r then fst r else [], snd r)) s) = Inr r'" "\<not> snd r'"
  shows "fst r' = []"
  using assms by (auto simp: gbind_def ret_def split: prod.splits sum.splits if_splits)

lemma method_retained_no_filter:
  assumes "names = None \<or> names = Some []"
  shows "method_retained names node =
     (\<exists>od. MethodElement_optionDecl od \<in>
        set (case methodElements node of None \<Rightarrow> [] | Some elements \<Rightarrow> elements))"
proof (cases "methodElements node")
  case None
  then show ?thesis by (simp add: method_retained_def)
next
  case (Some elements)
  have "list_ex (\<lambda>e. case e of MethodElement_optionDecl od \<Rightarrow> option_matches names od
                               | MethodElement_emptyDecl \<Rightarrow> False) elements =
        (\<exists>od. MethodElement_optionDecl od \<in> set elements)"
    using assms
    by (induction elements) (auto simp: option_matches_def split: MethodElement.splits)
  with Some show ?thesis by (simp add: method_retained_def)
qed

section \<open>Seeding during the graph build\<close>







lemma kept_append [simp]: "kept names (a @ b) = kept names a @ kept names b"
  by (simp add: kept_def)

lemma kept_Nil [simp]: "kept names [] = []"
  by (simp add: kept_def)




lemma rpcs_of_Nil [simp]: "rpcs_of pk [] = []"
  by (simp add: rpcs_of_def methods_of_def split: option.splits)


lemma rpcs_of_other [simp]:
  "rpcs_of pk [ServiceElement_optionDecl od] = []"
  "rpcs_of pk [ServiceElement_emptyDecl] = []"
  by (simp_all add: rpcs_of_def methods_of_def split: option.splits)

lemma seeded_fields:
  "usage_nodes t = usage_nodes s \<Longrightarrow>
   include_rpc_with_option_names t = include_rpc_with_option_names s \<Longrightarrow>
   seeded D names V t = seeded D names V s"
  by (simp add: seeded_def)















section \<open>Type references and children edges\<close>

lemma recorded_Nil [simp]: "recorded [] g"
  by (simp add: recorded_def)

lemma recorded_append [simp]: "recorded (a @ b) g \<longleftrightarrow> recorded a g \<and> recorded b g"
  by (simp add: recorded_def)



lemma node_children_set_kind [simp]: "node_children (set_kind c kd g) a = node_children g a"
  by (auto simp: node_children_def map_of_set_kind split: option.splits)

lemma node_children_set_should_render [simp]:
  "node_children (set_should_render c b g) a = node_children g a"
  by (auto simp: node_children_def map_of_set_should_render split: option.splits)






lemma edges_set_kind [simp]: "edges (set_kind c k g) = edges g"
  by (simp add: edges_def)

























section \<open>Services\<close>

text \<open>
  C3 does not hold of the code. Whenever the walk of a top-level service returns, its
  flag is true if and only if one of its methods is retained, and a service whose flag
  is false is written as the text \<open>service N {}\<close> on two lines: line 1050 writes the text
  of every service. A top-level message or enum whose flag is false is written as the
  empty text (lines 1040 and 1044). With the filter \<open>tracked\<close>, the run over
  \<open>ex_two_services_file\<close> writes the service \<open>Dropped\<close>, whose only method \<open>Put\<close> has no
  option and whose symbol is not alive, as an empty service.
\<close>

theorem service_without_retained_method_is_written:
  "(fst (generate_file_element (FileElement_serviceDecl node) s) = Inr r \<longrightarrow>
      snd r = service_retained (include_rpc_with_option_names s) node \<and>
      (\<not> snd r \<longrightarrow> fst r = ''service '' @ serviceName node @ '' {\<newline>}\<newline>'')) \<and>
   (fst (generate_file_element (FileElement_messageDecl md) s) = Inr r \<and> \<not> snd r \<longrightarrow> fst r = []) \<and>
   (fst (generate_file_element (FileElement_enumDecl ed) s) = Inr r \<and> \<not> snd r \<longrightarrow> fst r = []) \<and>
   written (main (Some [''tracked'']) [(''x'', ''a.proto'', ex_two_services_file)]) =
     [(''x/a.proto'',
       ''package p;\<newline>message A {\<newline>}\<newline>service Kept {\<newline>  rpc Get(A) returns (A){\<newline>    option (tracked) = true;\<newline>  }\<newline>}\<newline>service Dropped {\<newline>}\<newline>'')] \<and>
   \<not> alive (usage_nodes (snd (generate_file_element (FileElement_serviceDecl ex_dropped_service)
             ex_two_services_dry))) (''p'', ''Put'')"
proof -
  have 1: "fst (generate_file_element (FileElement_serviceDecl node) s) = Inr r \<longrightarrow>
      snd r = service_retained (include_rpc_with_option_names s) node \<and>
      (\<not> snd r \<longrightarrow> fst r = ''service '' @ serviceName node @ '' {\<newline>}\<newline>'')"
  proof (intro impI)
    assume a: "fst (generate_file_element (FileElement_serviceDecl node) s) = Inr r"
    obtain r0 s0 where g: "generate_service_decl node 0 s = (r0, s0)"
      by (cases "generate_service_decl node 0 s")
    with a have "generate_service_decl node 0 s = (Inr r, s0)"
      by (cases r0) (auto simp: gbind_def ret_def)
    from service_flag[OF this]
    show "snd r = service_retained (include_rpc_with_option_names s) node \<and>
      (\<not> snd r \<longrightarrow> fst r = ''service '' @ serviceName node @ '' {\<newline>}\<newline>'')"
      by (simp add: spaces_def)
  qed
  have 2: "fst (generate_file_element (FileElement_messageDecl md) s) = Inr r \<and> \<not> snd r \<longrightarrow>
      fst r = []"
    using gbind_gate_dead[of "generate_message_decl md 0 None" s r] by simp
  have 3: "fst (generate_file_element (FileElement_enumDecl ed) s) = Inr r \<and> \<not> snd r \<longrightarrow>
      fst r = []"
    using gbind_gate_dead[of "generate_enum_decl ed 0" s r] by simp
  have 4: "written (main (Some [''tracked'']) [(''x'', ''a.proto'', ex_two_services_file)]) =
     [(''x/a.proto'',
       ''package p;\<newline>message A {\<newline>}\<newline>service Kept {\<newline>  rpc Get(A) returns (A){\<newline>    option (tracked) = true;\<newline>  }\<newline>}\<newline>service Dropped {\<newline>}\<newline>'')]"
    by code_simp
  have 5: "\<not> alive (usage_nodes (snd (generate_file_element
      (FileElement_serviceDecl ex_dropped_service) ex_two_services_dry))) (''p'', ''Put'')"
    by code_simp
  show ?thesis by (intro conjI 1 2 3 4 5)
qed

theorem service_without_retained_method_is_written_witness:
  "fst (generate_file_element (FileElement_serviceDecl ex_dropped_service) ex_two_services_dry) =
     Inr (''service Dropped {\<newline>}\<newline>'', False) \<and>
   include_rpc_with_option_names ex_two_services_dry = Some [''tracked''] \<and>
   \<not> service_retained (Some [''tracked'']) ex_dropped_service"
proof -
  have g: "fst (generate_file_element (FileElement_serviceDecl ex_dropped_service)
      ex_two_services_dry) = Inr (''service Dropped {\<newline>}\<newline>'', False)"
    by code_simp
  have i: "include_rpc_with_option_names ex_two_services_dry = Some [''tracked'']"
    by code_simp
  show ?thesis
    using g i service_without_retained_method_is_written
      [of ex_dropped_service ex_two_services_dry "(''service Dropped {\<newline>}\<newline>'', False)"]
    by simp
qed

section \<open>The option filter\<close>

text \<open>
  C4 does not hold of the code. Whenever the walk of a method declaration returns, its
  flag, which decides whether the method is written and which line 988 assigns to its
  symbol, is true if and only if an option declaration of its body matches; with the
  filter unset or empty every option declaration matches; with a filter, an option
  matches when its name without its first and its last character is in the filter
  (line 377, \<open>option_name[1:-1]\<close>). With the filter \<open>deprecated\<close>, the method \<open>Old\<close>, whose
  body holds \<open>option deprecated = true;\<close>, is not retained, and nothing is written; with
  the filter \<open>eprecate\<close> the method is retained.
\<close>

theorem method_retained_iff_sliced_option_name_in_filter:
  "(fst (generate_method_decl node indent s) = Inr r \<longrightarrow>
      snd r = method_retained (include_rpc_with_option_names s) node) \<and>
   (names = None \<or> names = Some [] \<longrightarrow>
      method_retained names node =
        (\<exists>od. MethodElement_optionDecl od \<in>
           set (case methodElements node of None \<Rightarrow> [] | Some elements \<Rightarrow> elements))) \<and>
   option_matches (Some l) od = (l = [] \<or> butlast (tl (optionName od)) \<in> set l) \<and>
   optionName (OptionDecl ''deprecated'' ''true'') \<in> set [''deprecated''] \<and>
   \<not> method_retained (Some [''deprecated'']) ex_deprecated_method \<and>
   method_retained (Some [''eprecate'']) ex_deprecated_method \<and>
   written (main (Some [''deprecated'']) [(''x'', ''a.proto'', ex_deprecated_file)]) = [] \<and>
   written (main (Some [''eprecate'']) [(''x'', ''a.proto'', ex_deprecated_file)]) =
     [(''x/a.proto'',
       ''package p;\<newline>message A {\<newline>}\<newline>service S {\<newline>  rpc Old(A) returns (A){\<newline>    option deprecated = true;\<newline>  }\<newline>}\<newline>'')]"
proof -
  have 1: "fst (generate_method_decl node indent s) = Inr r \<longrightarrow>
      snd r = method_retained (include_rpc_with_option_names s) node"
  proof
    assume a: "fst (generate_method_decl node indent s) = Inr r"
    obtain s0 where "generate_method_decl node indent s = (Inr r, s0)"
      using a by (cases "generate_method_decl node indent s") auto
    from method_flag(1)[OF this]
    show "snd r = method_retained (include_rpc_with_option_names s) node" .
  qed
  have 2: "names = None \<or> names = Some [] \<longrightarrow>
      method_retained names node =
        (\<exists>od. MethodElement_optionDecl od \<in>
           set (case methodElements node of None \<Rightarrow> [] | Some elements \<Rightarrow> elements))"
    using method_retained_no_filter[of names node] by blast
  have 3: "option_matches (Some l) od = (l = [] \<or> butlast (tl (optionName od)) \<in> set l)"
    by (simp add: option_matches_def slice_1_m1_def)
  have 4: "optionName (OptionDecl ''deprecated'' ''true'') \<in> set [''deprecated'']" by simp
  have 5: "\<not> method_retained (Some [''deprecated'']) ex_deprecated_method" by code_simp
  have 6: "method_retained (Some [''eprecate'']) ex_deprecated_method" by code_simp
  have 7: "written (main (Some [''deprecated'']) [(''x'', ''a.proto'', ex_deprecated_file)]) = []"
    by code_simp
  have 8: "written (main (Some [''eprecate'']) [(''x'', ''a.proto'', ex_deprecated_file)]) =
     [(''x/a.proto'',
       ''package p;\<newline>message A {\<newline>}\<newline>service S {\<newline>  rpc Old(A) returns (A){\<newline>    option deprecated = true;\<newline>  }\<newline>}\<newline>'')]"
    by code_simp
  show ?thesis by (intro conjI 1 2 3 4 5 6 7 8)
qed

theorem method_retained_iff_sliced_option_name_in_filter_witness:
  "fst (generate_method_decl ex_deprecated_method 1 ex_deprecated_state) =
     Inr (''rpc Old(A) returns (A){\<newline>    option deprecated = true;\<newline>  }\<newline>'', False) \<and>
   include_rpc_with_option_names ex_deprecated_state = Some [''deprecated''] \<and>
   \<not> method_retained (Some [''deprecated'']) ex_deprecated_method \<and>
   method_retained None ex_deprecated_method"
proof -
  have g: "fst (generate_method_decl ex_deprecated_method 1 ex_deprecated_state) =
     Inr (''rpc Old(A) returns (A){\<newline>    option deprecated = true;\<newline>  }\<newline>'', False)"
    by code_simp
  have i: "include_rpc_with_option_names ex_deprecated_state = Some [''deprecated'']"
    by code_simp
  have e: "MethodElement_optionDecl (OptionDecl ''deprecated'' ''true'') \<in>
     set (case methodElements ex_deprecated_method of None \<Rightarrow> [] | Some elements \<Rightarrow> elements)"
    by (simp add: ex_deprecated_method_def)
  show ?thesis
    using g i e method_retained_iff_sliced_option_name_in_filter
      [of ex_deprecated_method 1 ex_deprecated_state
          "(''rpc Old(A) returns (A){\<newline>    option deprecated = true;\<newline>  }\<newline>'', False)" None]
    by auto
qed

section \<open>Reachability after propagation\<close>




text \<open>
  The condition on oneof members cannot be left out: \<open>generate_oneof_field_decl\<close> (lines
  560-575) writes the member's type and does not resolve it, where \<open>generate_field_decl\<close>
  does. In \<open>ex_oneof_symbol_file\<close> the message \<open>B\<close> is the type of a oneof member of the
  message \<open>A\<close> of a kept method; no edge is recorded, and \<open>A\<close> is written with its member
  of type \<open>B\<close> and \<open>B\<close> is not.
\<close>

lemma oneof_member_type_not_recorded:
  "((''p'', ''A''), ''B'', True) \<in> set (run_refs None [(''x'', ''a.proto'', ex_oneof_symbol_file)]) \<and>
   (''p'', ''B'') \<notin> set (node_children
      (usage_nodes (snd (create_usage_graphs [(''x'', ''a.proto'', ex_oneof_symbol_file)] (init None))))
      (''p'', ''A'')) \<and>
   written (main None [(''x'', ''a.proto'', ex_oneof_symbol_file)]) =
     [(''x/a.proto'',
       ''package p;\<newline>message A {\<newline>  oneof choice {\<newline>    B b = 1;\<newline>  }\<newline>}\<newline>service S {\<newline>  rpc Get(A) returns (A){\<newline>    option (t) = true;\<newline>  }\<newline>}\<newline>'')]"
  by code_simp

section \<open>Monotonicity of the alive flag\<close>

text \<open>
  C2 does not hold of the code. A symbol that is alive stays alive through the
  propagation (\<open>update_should_render_state\<close>), through every symbol resolution
  (\<open>create_usage_node_from_type_name\<close>), and through a walk, graph build or render, over
  a file that declares no method of the symbol's name. But line 988 assigns the symbol of
  every visited method the method's own result, and two methods of the same package and
  name share one symbol: the graph build of \<open>ex_get_tracked_file\<close> sets \<open>(p, Get)\<close> alive,
  and the graph build of \<open>ex_get_plain_file\<close>, whose method \<open>Get\<close> has no option, sets
  it back. In the run over \<open>ex_reset_files\<close> the propagation then starts from no symbol,
  and \<open>a.proto\<close> is written with its method \<open>Get(A)\<close> and without the message \<open>A\<close>,
  which the run over \<open>a.proto\<close> alone keeps.
\<close>

theorem alive_reset_by_method_of_same_name:
  "(alive (usage_nodes s) k \<longrightarrow> alive (usage_nodes (update_should_render_state s)) k) \<and>
   (alive (usage_nodes s) k \<longrightarrow>
      alive (usage_nodes (snd (create_usage_node_from_type_name t par kd s))) k) \<and>
   (alive (usage_nodes s) k \<and> snd k \<notin> set (method_symbol_names tree) \<longrightarrow>
      alive (usage_nodes (snd (regenerate_file tree s))) k \<and>
      alive (usage_nodes (snd (create_usage_graph tree False s))) k) \<and>
   alive (usage_nodes ex_get_tracked_built) (''p'', ''Get'') \<and>
   \<not> alive (usage_nodes (snd (create_usage_graph ex_get_plain_file False ex_get_tracked_built)))
       (''p'', ''Get'') \<and>
   written (main None [(''x'', ''a.proto'', ex_reset_file1)]) =
     [(''x/a.proto'',
       ''package p;\<newline>message A {\<newline>}\<newline>service S1 {\<newline>  rpc Get(A) returns (A){\<newline>    option (t) = true;\<newline>  }\<newline>}\<newline>'')] \<and>
   written (main None ex_reset_files) =
     [(''x/a.proto'',
       ''package p;\<newline>service S1 {\<newline>  rpc Get(A) returns (A){\<newline>    option (t) = true;\<newline>  }\<newline>}\<newline>'')]"
proof -
  have 1: "alive (usage_nodes s) k \<longrightarrow> alive (usage_nodes (update_should_render_state s)) k"
    by (simp add: update_should_render_state_def loop_mono)
  have 2: "alive (usage_nodes s) k \<longrightarrow>
      alive (usage_nodes (snd (create_usage_node_from_type_name t par kd s))) k"
    using preservesD[OF preserves_alive_true_create_usage_node, of s k t par kd] by blast
  have 3: "alive (usage_nodes s) k \<and> snd k \<notin> set (method_symbol_names tree) \<longrightarrow>
      alive (usage_nodes (snd (regenerate_file tree s))) k \<and>
      alive (usage_nodes (snd (create_usage_graph tree False s))) k"
  proof (intro impI)
    assume a: "alive (usage_nodes s) k \<and> snd k \<notin> set (method_symbol_names tree)"
    then have n: "snd k \<notin> set (method_symbol_names tree)" by simp
    from a have "alive (usage_nodes s) k = True" by simp
    from preservesD[OF preserves_alive_generate_file[OF n] this]
    have r: "alive (usage_nodes (snd (regenerate_file tree s))) k"
      by (simp add: regenerate_file_def)
    let ?s1 = "s\<lparr>usage_graph_creation_phase := True\<rparr>"
    from a have "alive (usage_nodes ?s1) k = True" by simp
    from preservesD[OF preserves_alive_generate_file[OF n] this]
    have "alive (usage_nodes (snd (generate_file' tree ?s1))) k" by simp
    then have g: "alive (usage_nodes (snd (create_usage_graph tree False s))) k"
      by (auto simp: create_usage_graph_def Let_def split: prod.splits sum.splits)
    from r g show "alive (usage_nodes (snd (regenerate_file tree s))) k \<and>
      alive (usage_nodes (snd (create_usage_graph tree False s))) k" by simp
  qed
  have 4: "alive (usage_nodes ex_get_tracked_built) (''p'', ''Get'')" by code_simp
  have 5: "\<not> alive (usage_nodes (snd (create_usage_graph ex_get_plain_file False
      ex_get_tracked_built))) (''p'', ''Get'')" by code_simp
  have 6: "written (main None [(''x'', ''a.proto'', ex_reset_file1)]) =
     [(''x/a.proto'',
       ''package p;\<newline>message A {\<newline>}\<newline>service S1 {\<newline>  rpc Get(A) returns (A){\<newline>    option (t) = true;\<newline>  }\<newline>}\<newline>'')]"
    by code_simp
  have 7: "written (main None ex_reset_files) =
     [(''x/a.proto'',
       ''package p;\<newline>service S1 {\<newline>  rpc Get(A) returns (A){\<newline>    option (t) = true;\<newline>  }\<newline>}\<newline>'')]"
    by code_simp
  show ?thesis by (intro conjI 1 2 3 4 5 6 7)
qed

theorem alive_reset_by_method_of_same_name_witness:
  "alive (usage_nodes (update_should_render_state ex_tracked_built)) (''p'', ''A'') \<and>
   snd (''p'', ''A'') \<notin> set (method_symbol_names ex_tracked_file) \<and>
   \<not> isl (fst (regenerate_file ex_tracked_file (update_should_render_state ex_tracked_built))) \<and>
   alive (usage_nodes (snd (regenerate_file ex_tracked_file
            (update_should_render_state ex_tracked_built)))) (''p'', ''A'') \<and>
   \<not> isl (fst (create_usage_graph ex_tracked_file False
                 (update_should_render_state ex_tracked_built))) \<and>
   alive (usage_nodes (snd (create_usage_graph ex_tracked_file False
            (update_should_render_state ex_tracked_built)))) (''p'', ''A'') \<and>
   alive (usage_nodes (snd (create_usage_node_from_type_name ''C'' None None
            (update_should_render_state ex_tracked_built)))) (''p'', ''A'')"
proof -
  have a: "alive (usage_nodes (update_should_render_state ex_tracked_built)) (''p'', ''A'')"
    by code_simp
  have h: "snd (''p'', ''A'') \<notin> set (method_symbol_names ex_tracked_file)" by code_simp
  have r: "\<not> isl (fst (regenerate_file ex_tracked_file
      (update_should_render_state ex_tracked_built)))" by code_simp
  have g: "\<not> isl (fst (create_usage_graph ex_tracked_file False
      (update_should_render_state ex_tracked_built)))" by code_simp
  show ?thesis
    using a h r g alive_reset_by_method_of_same_name
      [of "update_should_render_state ex_tracked_built" "(''p'', ''A'')" "''C''" None None
          ex_tracked_file]
    by simp
qed

section \<open>The recorded file names\<close>

lemma rendered_files_regenerate_file:
  "rendered_files (snd (regenerate_file tree s)) = rendered_files s"
proof -
  have "rendered_files s = rendered_files s" by simp
  from preservesD[OF preserves_rendered_files_generate_file this]
  show ?thesis by (simp add: regenerate_file_def)
qed

lemma rendered_files_regenerate_files:
  "rendered_files (snd (regenerate_files dry (rel, fname, tree) ws)) =
     rendered_files (snd ws) @
       (case fst (regenerate_file tree (snd ws)) of
          Inl e \<Rightarrow> []
        | Inr r \<Rightarrow> if snd r \<and> dry then [os_path_join rel fname] else [])"
proof -
  obtain r s' where g: "regenerate_file tree (snd ws) = (r, s')"
    by (cases "regenerate_file tree (snd ws)")
  with rendered_files_regenerate_file[of tree "snd ws"]
  have s': "rendered_files s' = rendered_files (snd ws)" by simp
  show ?thesis
    using g s' by (cases r) (auto simp: regenerate_files_def split: prod.splits)
qed

lemma rendered_files_output_processor:
  "set (rendered_files (snd (output_processor dry files ws))) \<subseteq>
     set (rendered_files (snd ws)) \<union> set (map (\<lambda>f. os_path_join (fst f) (fst (snd f))) files)"
  unfolding output_processor_def
proof (induction files arbitrary: ws)
  case Nil
  show ?case by simp
next
  case (Cons f files)
  obtain rel fname tree where f: "f = (rel, fname, tree)" by (cases f)
  have "set (rendered_files (snd (regenerate_files dry f ws))) \<subseteq>
        set (rendered_files (snd ws)) \<union> {os_path_join rel fname}"
    unfolding f rendered_files_regenerate_files
    by (auto split: sum.splits)
  with Cons.IH[of "regenerate_files dry f ws"] show ?case
    by (auto simp: f)
qed

lemma rendered_files_final_pass:
  "rendered_files (snd (output_processor False files ws)) = rendered_files (snd ws)"
  unfolding output_processor_def
proof (induction files arbitrary: ws)
  case Nil
  show ?case by simp
next
  case (Cons f files)
  obtain rel fname tree where f: "f = (rel, fname, tree)" by (cases f)
  have "rendered_files (snd (regenerate_files False f ws)) = rendered_files (snd ws)"
    unfolding f rendered_files_regenerate_files by (simp split: sum.splits)
  with Cons.IH[of "regenerate_files False f ws"] show ?case by simp
qed

section \<open>Imports\<close>

text \<open>
  C6 does not hold of the code. An import statement is written if and only if the text
  between the quotes of its file name is an element of \<open>rendered_files\<close>; every name a
  pass records there is \<open>os.path.join(relative_path, file)\<close> of a file of the run, and
  the final pass records none. For a file at the top of a source directory the relative
  path is \<open>.\<close> and the recorded name is \<open>./\<close> followed by the file name (main.py, lines
  24 and 51), which no import of that file names. In the run over \<open>ex_top_files\<close> both
  files are written, and the import of \<open>f.proto\<close> is omitted from \<open>g.proto\<close>; in the run
  over \<open>ex_sub_files\<close>, the same two files below the directory \<open>x\<close>, the import of
  \<open>x/f.proto\<close> is kept.
\<close>

theorem import_of_top_level_file_omitted:
  "set (rendered_files (snd (output_processor dry files ws))) \<subseteq>
     set (rendered_files (snd ws)) \<union> set (map (\<lambda>f. os_path_join (fst f) (fst (snd f))) files) \<and>
   rendered_files (snd (output_processor False files ws)) = rendered_files (snd ws) \<and>
   (fname \<noteq> [] \<and> hd fname \<noteq> CHR ''/'' \<longrightarrow> os_path_join ''.'' fname = ''./'' @ fname) \<and>
   fst (generate_file_element (FileElement_importDecl node) s) =
     Inr (if slice_1_m1 (importedFileName node) \<in> set (rendered_files s)
          then ''import '' @ (if WEAK node then ''weak '' else []) @
               (if PUBLIC node then ''public '' else []) @ importedFileName node @ '';\<newline>''
          else [], False) \<and>
   written (main None ex_top_files) =
     [(''./f.proto'',
       ''package p;\<newline>service S1 {\<newline>  rpc Get(A) returns (A){\<newline>    option (t) = true;\<newline>  }\<newline>}\<newline>''),
      (''./g.proto'',
       ''package p;\<newline>service T {\<newline>  rpc Put(A) returns (A){\<newline>    option (t) = true;\<newline>  }\<newline>}\<newline>'')] \<and>
   written (main None ex_sub_files) =
     [(''x/f.proto'',
       ''package p;\<newline>service S1 {\<newline>  rpc Get(A) returns (A){\<newline>    option (t) = true;\<newline>  }\<newline>}\<newline>''),
      (''x/g.proto'',
       ''import \"x/f.proto\";\<newline>package p;\<newline>message A {\<newline>}\<newline>service S {\<newline>  rpc Get(A) returns (A){\<newline>    option (t) = true;\<newline>  }\<newline>}\<newline>'')]"
proof -
  have 1: "set (rendered_files (snd (output_processor dry files ws))) \<subseteq>
     set (rendered_files (snd ws)) \<union> set (map (\<lambda>f. os_path_join (fst f) (fst (snd f))) files)"
    by (rule rendered_files_output_processor)
  have 2: "rendered_files (snd (output_processor False files ws)) = rendered_files (snd ws)"
    by (rule rendered_files_final_pass)
  have 3: "fname \<noteq> [] \<and> hd fname \<noteq> CHR ''/'' \<longrightarrow> os_path_join ''.'' fname = ''./'' @ fname"
    by (simp add: os_path_join_def)
  have 4: "fst (generate_file_element (FileElement_importDecl node) s) =
     Inr (if slice_1_m1 (importedFileName node) \<in> set (rendered_files s)
          then ''import '' @ (if WEAK node then ''weak '' else []) @
               (if PUBLIC node then ''public '' else []) @ importedFileName node @ '';\<newline>''
          else [], False)"
    by (simp add: generate_import_decl_def gbind_def ret_def Let_def)
  have 5: "written (main None ex_top_files) =
     [(''./f.proto'',
       ''package p;\<newline>service S1 {\<newline>  rpc Get(A) returns (A){\<newline>    option (t) = true;\<newline>  }\<newline>}\<newline>''),
      (''./g.proto'',
       ''package p;\<newline>service T {\<newline>  rpc Put(A) returns (A){\<newline>    option (t) = true;\<newline>  }\<newline>}\<newline>'')]"
    by code_simp
  have 6: "written (main None ex_sub_files) =
     [(''x/f.proto'',
       ''package p;\<newline>service S1 {\<newline>  rpc Get(A) returns (A){\<newline>    option (t) = true;\<newline>  }\<newline>}\<newline>''),
      (''x/g.proto'',
       ''import \"x/f.proto\";\<newline>package p;\<newline>message A {\<newline>}\<newline>service S {\<newline>  rpc Get(A) returns (A){\<newline>    option (t) = true;\<newline>  }\<newline>}\<newline>'')]"
    by code_simp
  show ?thesis by (intro conjI 1 2 3 4 5 6)
qed

theorem import_of_top_level_file_omitted_witness:
  "''f.proto'' \<noteq> [] \<and> hd ''f.proto'' \<noteq> CHR ''/'' \<and>
   os_path_join ''.'' ''f.proto'' = ''./f.proto'' \<and>
   rendered_files (snd (output_processor True ex_top_files
      ([], update_should_render_state (snd (create_usage_graphs ex_top_files (init None))))))
     = [''./f.proto'', ''./g.proto''] \<and>
   slice_1_m1 (importedFileName (ImportDecl False False ''\"f.proto\"'')) = ''f.proto''"
proof -
  have r: "rendered_files (snd (output_processor True ex_top_files
      ([], update_should_render_state (snd (create_usage_graphs ex_top_files (init None))))))
     = [''./f.proto'', ''./g.proto'']" by code_simp
  have s: "slice_1_m1 (importedFileName (ImportDecl False False ''\"f.proto\"'')) = ''f.proto''"
    by code_simp
  show ?thesis
    using r s import_of_top_level_file_omitted [where fname = "''f.proto''"]
    by simp
qed

end
